theory Spec2Isabelle
  imports Complex_Main "HOL-Library.Char_ord" "HOL-Library.FuncSet" "HOL-Library.List_Lexorder"
    "HOL-Library.Multiset" "HOL-Library.Sublist"
begin

section \<open>Artist Expander: \<open>expand_with_dict\<close>\<close>

text \<open>
  A data frame is a list of rows in index order. \<open>expand_with_dict\<close> reads and writes one
  column, \<open>artist_col\<close>; every other column of the row travels along unchanged and is kept
  as one value \<open>other_cols\<close>. A cell of the artist column is a string or null (\<open>None\<close>:
  pandas' NaN/None).
\<close>

record 'a row =
  artist_col :: "string option"
  other_cols :: 'a

type_synonym split_mapping = "string \<rightharpoonup> string list"

text \<open>
  Line 20: \<open>df[artist_col].map(mapping).where(lambda s: s.notna(), other=[x])\<close>.
  \<open>Series.map\<close> with a dict gives the mapped list for a key of the dict and NaN for every
  other cell; \<open>where\<close> keeps the mapped list and puts the one-element list \<open>[x]\<close> where the
  mapped cell is NaN.
\<close>

definition lists_cell :: "split_mapping \<Rightarrow> string option \<Rightarrow> string option list" where
  "lists_cell mapping x =
     (case (case x of None \<Rightarrow> None | Some a \<Rightarrow> mapping a) of
        None \<Rightarrow> [x]
      | Some names \<Rightarrow> map Some names)"

text \<open>
  Line 27: \<open>DataFrame.explode\<close> turns a list cell into one row per element, in list order;
  an empty list becomes one row whose cell is NaN.
\<close>

fun explode_cell :: "string option list \<Rightarrow> string option list" where
  "explode_cell [] = [None]"
| "explode_cell (x # xs) = x # xs"

definition expand_row :: "split_mapping \<Rightarrow> 'a row \<Rightarrow> 'a row list" where
  "expand_row mapping r =
     map (\<lambda>a. r\<lparr>artist_col := a\<rparr>) (explode_cell (lists_cell mapping (artist_col r)))"

definition expand_with_dict :: "'a row list \<Rightarrow> split_mapping \<Rightarrow> 'a row list" where
  "expand_with_dict df mapping = concat (map (expand_row mapping) df)"

text \<open>
  The expander as the specification words it: a row whose artist is a key of the mapping
  gives one copy of the row per mapped name, in mapping order; any other row gives itself;
  the pieces are laid out in row order. The row count is the sum of the lengths.
\<close>

definition spec_expand_row :: "split_mapping \<Rightarrow> 'a row \<Rightarrow> 'a row list" where
  "spec_expand_row mapping r =
     (case artist_col r of
        None \<Rightarrow> [r]
      | Some a \<Rightarrow>
          (case mapping a of
             None \<Rightarrow> [r]
           | Some names \<Rightarrow> map (\<lambda>n. r\<lparr>artist_col := Some n\<rparr>) names))"

definition spec_expand :: "'a row list \<Rightarrow> split_mapping \<Rightarrow> 'a row list" where
  "spec_expand df mapping = concat (map (spec_expand_row mapping) df)"

definition spec_row_count :: "split_mapping \<Rightarrow> 'a row \<Rightarrow> nat" where
  "spec_row_count mapping r =
     (case artist_col r of
        None \<Rightarrow> 1
      | Some a \<Rightarrow> (case mapping a of None \<Rightarrow> 1 | Some names \<Rightarrow> length names))"

definition maps_to_empty :: "split_mapping \<Rightarrow> 'a row \<Rightarrow> bool" where
  "maps_to_empty mapping r =
     (case artist_col r of None \<Rightarrow> False | Some a \<Rightarrow> mapping a = Some [])"

definition unmatched :: "split_mapping \<Rightarrow> 'a row \<Rightarrow> bool" where
  "unmatched mapping r =
     (case artist_col r of None \<Rightarrow> True | Some a \<Rightarrow> mapping a = None)"

definition ab_row :: "nat row" where
  "ab_row = \<lparr>artist_col = Some ''A & B'', other_cols = 1\<rparr>"

definition c_row :: "nat row" where
  "c_row = \<lparr>artist_col = Some ''C'', other_cols = 2\<rparr>"

definition ab_mapping :: split_mapping where
  "ab_mapping = [''A & B'' \<mapsto> [''A'', ''B'']]"

definition empty_mapping :: split_mapping where
  "empty_mapping = [''A & B'' \<mapsto> []]"

subsection \<open>Properties of the expander\<close>

lemma expand_row_spec:
  "\<not> maps_to_empty mapping r \<Longrightarrow> expand_row mapping r = spec_expand_row mapping r"
proof (cases "artist_col r")
  case None
  then show ?thesis
    by (simp add: expand_row_def spec_expand_row_def lists_cell_def)
next
  case (Some a)
  assume ne: "\<not> maps_to_empty mapping r"
  show ?thesis
  proof (cases "mapping a")
    case None
    with Some show ?thesis
      by (simp add: expand_row_def spec_expand_row_def lists_cell_def)
  next
    case (Some names)
    with \<open>artist_col r = Some a\<close> ne have "names \<noteq> []"
      by (simp add: maps_to_empty_def)
    then obtain n ns where "names = n # ns"
      by (cases names) auto
    with Some \<open>artist_col r = Some a\<close> show ?thesis
      by (simp add: expand_row_def spec_expand_row_def lists_cell_def)
  qed
qed

lemma expand_row_empty:
  "maps_to_empty mapping r \<Longrightarrow> expand_row mapping r = [r\<lparr>artist_col := None\<rparr>]"
  by (cases "artist_col r") (simp_all add: maps_to_empty_def expand_row_def lists_cell_def)

lemma spec_expand_row_length:
  "length (spec_expand_row mapping r) = spec_row_count mapping r"
  by (simp add: spec_expand_row_def spec_row_count_def split: option.splits)

lemma expand_row_unmatched:
  "unmatched mapping r \<Longrightarrow> expand_row mapping r = [r]"
  by (cases "artist_col r") (simp_all add: unmatched_def expand_row_def lists_cell_def)

lemma expand_unmatched:
  "\<forall>r \<in> set df. unmatched mapping r \<Longrightarrow> expand_with_dict df mapping = df"
  by (induction df) (simp_all add: expand_with_dict_def expand_row_unmatched)

text \<open>
  Claim C5, as amended. For every row list and mapping in which no row's artist maps to an
  empty list, \<open>expand_with_dict\<close> is the expander of the specification: a row whose artist is
  a key gives one copy per mapped name with only the artist replaced, any other row gives
  itself, the pieces stand contiguously in row order and in mapping order, and the number
  of output rows is the sum over the rows of the mapped list's length (1 for an absent
  artist). In general a row whose artist maps to the empty list gives one row with a null
  artist, and every other row what the specification says.
\<close>

theorem expand_with_dict_semantics:
  "expand_with_dict df mapping
     = concat (map (\<lambda>r. if maps_to_empty mapping r then [r\<lparr>artist_col := None\<rparr>]
                        else spec_expand_row mapping r) df)
   \<and> ((\<forall>r \<in> set df. \<not> maps_to_empty mapping r) \<longrightarrow>
        expand_with_dict df mapping = spec_expand df mapping
        \<and> length (expand_with_dict df mapping) = sum_list (map (spec_row_count mapping) df))"
proof -
  have gen: "expand_with_dict df mapping
     = concat (map (\<lambda>r. if maps_to_empty mapping r then [r\<lparr>artist_col := None\<rparr>]
                        else spec_expand_row mapping r) df)"
    by (induction df)
      (simp_all add: expand_with_dict_def expand_row_spec expand_row_empty)
  have eq: "expand_with_dict df mapping = spec_expand df mapping"
    if "\<forall>r \<in> set df. \<not> maps_to_empty mapping r"
    using that
    by (induction df) (simp_all add: expand_with_dict_def spec_expand_def expand_row_spec)
  have len: "length (spec_expand df mapping) = sum_list (map (spec_row_count mapping) df)"
    by (induction df) (simp_all add: spec_expand_def spec_expand_row_length)
  from gen eq len show ?thesis by simp
qed

theorem expand_with_dict_semantics_witness:
  "expand_with_dict [ab_row, c_row] ab_mapping
     = [ab_row\<lparr>artist_col := Some ''A''\<rparr>, ab_row\<lparr>artist_col := Some ''B''\<rparr>, c_row]
   \<and> length (expand_with_dict [ab_row, c_row] ab_mapping) = 3"
proof -
  have h: "\<forall>r \<in> set [ab_row, c_row]. \<not> maps_to_empty ab_mapping r"
    by (simp add: maps_to_empty_def ab_row_def c_row_def ab_mapping_def)
  from expand_with_dict_semantics [of "[ab_row, c_row]" ab_mapping] h
  have "expand_with_dict [ab_row, c_row] ab_mapping = spec_expand [ab_row, c_row] ab_mapping
      \<and> length (expand_with_dict [ab_row, c_row] ab_mapping)
          = sum_list (map (spec_row_count ab_mapping) [ab_row, c_row])"
    by blast
  then show ?thesis
    by (simp add: spec_expand_def spec_expand_row_def spec_row_count_def
        ab_row_def c_row_def ab_mapping_def)
qed

text \<open>
  Claim C5 as the specification states it fails for a mapping with an empty list: the
  specification's expander gives no row for such a row (row count 0), the code gives one
  row with a null artist.
\<close>

theorem expand_with_dict_empty_list_counterexample:
  "expand_with_dict [ab_row] empty_mapping = [ab_row\<lparr>artist_col := None\<rparr>]
   \<and> spec_expand [ab_row] empty_mapping = []
   \<and> length (expand_with_dict [ab_row] empty_mapping) = 1
   \<and> sum_list (map (spec_row_count empty_mapping) [ab_row]) = 0"
  by (simp add: expand_with_dict_def expand_row_def lists_cell_def spec_expand_def
      spec_expand_row_def spec_row_count_def ab_row_def empty_mapping_def)

text \<open>
  Claim C6. For every row list and mapping such that no artist of the once-expanded output
  is a key of the mapping, expanding the output again with the same mapping gives the
  output back: every row takes the single-row branch.
\<close>

theorem expand_with_dict_idempotent:
  assumes "\<forall>r \<in> set (expand_with_dict df mapping). unmatched mapping r"
  shows "expand_with_dict (expand_with_dict df mapping) mapping = expand_with_dict df mapping"
  using assms by (rule expand_unmatched)

theorem expand_with_dict_idempotent_witness:
  "expand_with_dict (expand_with_dict [ab_row, c_row] ab_mapping) ab_mapping
     = [ab_row\<lparr>artist_col := Some ''A''\<rparr>, ab_row\<lparr>artist_col := Some ''B''\<rparr>, c_row]"
proof -
  have e: "expand_with_dict [ab_row, c_row] ab_mapping
     = [ab_row\<lparr>artist_col := Some ''A''\<rparr>, ab_row\<lparr>artist_col := Some ''B''\<rparr>, c_row]"
    by (simp add: expand_with_dict_def expand_row_def lists_cell_def
        ab_row_def c_row_def ab_mapping_def)
  have h: "\<forall>r \<in> set (expand_with_dict [ab_row, c_row] ab_mapping). unmatched ab_mapping r"
    unfolding e by (simp add: unmatched_def ab_row_def c_row_def ab_mapping_def)
  show ?thesis
    using expand_with_dict_idempotent [OF h] e by simp
qed

section \<open>Strings\<close>

text \<open>
  Python's \<open>str.lower\<close>, \<open>str.strip\<close>, \<open>str.split\<close> (no argument) and \<open>str.join\<close> on ASCII
  text, which is what a \<open>string\<close> of 8-bit characters stands for here: the letters \<open>A\<close> to
  \<open>Z\<close> are folded, every other character is kept; white space is the ASCII white space of
  \<open>str.isspace\<close> (0x09 to 0x0D, 0x1C to 0x20). The letters outside ASCII that \<open>str.lower\<close>
  folds as well are not represented; what is proved below about the selection of
  \<open>extractOne\<close> is proved for every processor and does not rest on the table.
\<close>

definition lower_char :: "char \<Rightarrow> char" where
  "lower_char c =
     (case map_of (zip ''ABCDEFGHIJKLMNOPQRSTUVWXYZ'' ''abcdefghijklmnopqrstuvwxyz'') c of
        None \<Rightarrow> c
      | Some l \<Rightarrow> l)"

definition lower :: "string \<Rightarrow> string" where
  "lower s = map lower_char s"

definition is_space :: "char \<Rightarrow> bool" where
  "is_space c = (c \<in> set [CHR 0x09, CHR 0x0A, CHR 0x0B, CHR 0x0C, CHR 0x0D,
                           CHR 0x1C, CHR 0x1D, CHR 0x1E, CHR 0x1F, CHR 0x20])"

definition strip :: "string \<Rightarrow> string" where
  "strip s = rev (dropWhile is_space (rev (dropWhile is_space s)))"

fun tokens :: "string \<Rightarrow> string \<Rightarrow> string list" where
  "tokens cur [] = (if cur = [] then [] else [cur])"
| "tokens cur (c # cs) =
     (if is_space c then (if cur = [] then tokens [] cs else cur # tokens [] cs)
      else tokens (cur @ [c]) cs)"

definition split :: "string \<Rightarrow> string list" where
  "split s = tokens [] s"

fun join :: "string \<Rightarrow> string list \<Rightarrow> string" where
  "join sep [] = []"
| "join sep [x] = x"
| "join sep (x # y # ys) = x @ sep @ join sep (y # ys)"

text \<open>
  The scorer \<open>fuzz.token_sort_ratio\<close> of rapidfuzz, which the source passes to
  \<open>process.extractOne\<close>: both strings are split at white space, the tokens sorted and
  joined with one space, and the two results compared by \<open>fuzz.ratio\<close>, the normalised
  indel similarity \<open>100 * (1 - (len1 + len2 - 2 * lcs) / (len1 + len2))\<close>; a score under
  \<open>score_cutoff\<close> is reported as 0. Scores are kept as exact rationals: on strings
  shorter than \<open>2^20\<close> characters two different scores differ by more than the rounding of
  the library's doubles, so comparisons agree.
\<close>

fun lcs_length :: "string \<Rightarrow> string \<Rightarrow> nat" where
  "lcs_length [] ys = 0"
| "lcs_length (x # xs) [] = 0"
| "lcs_length (x # xs) (y # ys) =
     (if x = y then Suc (lcs_length xs ys)
      else max (lcs_length xs (y # ys)) (lcs_length (x # xs) ys))"

definition indel_distance :: "string \<Rightarrow> string \<Rightarrow> nat" where
  "indel_distance s1 s2 = length s1 + length s2 - 2 * lcs_length s1 s2"

definition ratio :: "string \<Rightarrow> string \<Rightarrow> rat \<Rightarrow> rat" where
  "ratio s1 s2 score_cutoff =
     (let maximum = length s1 + length s2;
          norm_dist = (if maximum = 0 then 0
                       else of_nat (indel_distance s1 s2) / of_nat maximum);
          norm_sim = 1 - norm_dist
      in (if norm_sim \<ge> score_cutoff / 100 then norm_sim else 0) * 100)"

definition token_sort_ratio :: "string \<Rightarrow> string \<Rightarrow> rat \<Rightarrow> rat" where
  "token_sort_ratio s1 s2 score_cutoff =
     ratio (join '' '' (sort (split s1))) (join '' '' (sort (split s2))) score_cutoff"


text \<open>
  \<open>process.extractOne(query, choices, scorer, processor)\<close> of rapidfuzz with no
  \<open>score_cutoff\<close>: the processor is applied to the query and to every choice; the cutoff
  starts at the scorer's worst score 0 and follows the best score; a choice replaces the
  result only when its score is strictly greater; the scan stops at the optimal score 100.
  The result is \<open>(choice, score, index)\<close>, or \<open>None\<close> when there is no choice.
\<close>

definition worst_score :: rat where
  "worst_score = 0"

definition optimal_score :: rat where
  "optimal_score = 100"

fun extractOne_loop ::
  "(string \<Rightarrow> string \<Rightarrow> rat \<Rightarrow> rat) \<Rightarrow> (string \<Rightarrow> string) \<Rightarrow> string \<Rightarrow> string list
     \<Rightarrow> nat \<Rightarrow> rat \<Rightarrow> (string \<times> rat \<times> nat) option \<Rightarrow> (string \<times> rat \<times> nat) option" where
  "extractOne_loop scorer processor query [] key score_cutoff result = result"
| "extractOne_loop scorer processor query (choice # choices) key score_cutoff result =
     (let score = scorer query (processor choice) score_cutoff;
          better = (score \<ge> score_cutoff \<and>
                    (case result of None \<Rightarrow> True | Some (_, best, _) \<Rightarrow> score > best));
          score_cutoff' = (if better then score else score_cutoff);
          result' = (if better then Some (choice, score, key) else result)
      in if score = optimal_score then result'
         else extractOne_loop scorer processor query choices (Suc key) score_cutoff' result')"

definition extractOne ::
  "(string \<Rightarrow> string \<Rightarrow> rat \<Rightarrow> rat) \<Rightarrow> (string \<Rightarrow> string) \<Rightarrow> string \<Rightarrow> string list
     \<Rightarrow> (string \<times> rat \<times> nat) option" where
  "extractOne scorer processor query choices =
     extractOne_loop scorer processor (processor query) choices 0 worst_score None"

text \<open>
  The score \<open>extractOne\<close> gives a candidate's display name for a query, both lower-cased
  by the processor of line 62.
\<close>

definition similarity :: "string \<Rightarrow> string \<Rightarrow> rat" where
  "similarity artist_name display_name =
     token_sort_ratio (lower artist_name) (lower display_name) worst_score"

subsection \<open>The scorer is bounded and the cutoff only hides lower scores\<close>

lemma lcs_length_le: "lcs_length xs ys \<le> length xs \<and> lcs_length xs ys \<le> length ys"
  by (induction xs ys rule: lcs_length.induct) auto

definition norm_dist :: "string \<Rightarrow> string \<Rightarrow> rat" where
  "norm_dist s1 s2 =
     (if length s1 + length s2 = 0 then 0
      else of_nat (indel_distance s1 s2) / of_nat (length s1 + length s2))"

lemma norm_dist_bounds: "0 \<le> norm_dist s1 s2 \<and> norm_dist s1 s2 \<le> 1"
proof (cases "length s1 + length s2 = 0")
  case True
  then show ?thesis by (simp add: norm_dist_def)
next
  case False
  have "indel_distance s1 s2 \<le> length s1 + length s2"
    by (simp add: indel_distance_def)
  then have le: "(of_nat (indel_distance s1 s2) :: rat) \<le> of_nat (length s1 + length s2)"
    by (simp only: of_nat_le_iff)
  have "0 < length s1 + length s2"
    using False by simp
  then have pos: "(0::rat) < of_nat (length s1 + length s2)"
    by (simp only: of_nat_0_less_iff)
  have u: "(of_nat (indel_distance s1 s2) :: rat) / of_nat (length s1 + length s2) \<le> 1"
    using le pos by (simp only: divide_le_eq_1_pos)
  have l: "(0::rat) \<le> of_nat (indel_distance s1 s2) / of_nat (length s1 + length s2)"
    by (rule divide_nonneg_nonneg) simp_all
  have "norm_dist s1 s2 = of_nat (indel_distance s1 s2) / of_nat (length s1 + length s2)"
    using False by (simp only: norm_dist_def if_False)
  with u l show ?thesis by (simp only:) 
qed

lemma ratio_norm_dist:
  "ratio s1 s2 c =
     (if c / 100 \<le> 1 - norm_dist s1 s2 then 1 - norm_dist s1 s2 else 0) * 100"
  by (simp add: ratio_def norm_dist_def Let_def)

lemma ratio_bounds: "0 \<le> ratio s1 s2 0 \<and> ratio s1 s2 0 \<le> 100"
  using norm_dist_bounds [of s1 s2] by (simp add: ratio_norm_dist)

lemma ratio_cutoff:
  "ratio s1 s2 c = (if c \<le> ratio s1 s2 0 then ratio s1 s2 0 else 0)"
proof -
  have z: "ratio s1 s2 0 = (1 - norm_dist s1 s2) * 100"
    using norm_dist_bounds [of s1 s2] by (simp add: ratio_norm_dist)
  have "(c / 100 \<le> 1 - norm_dist s1 s2) = (c \<le> (1 - norm_dist s1 s2) * 100)"
    by (simp add: divide_le_eq)
  then show ?thesis
    unfolding z by (simp add: ratio_norm_dist)
qed

lemma token_sort_ratio_bounds:
  "0 \<le> token_sort_ratio a b 0 \<and> token_sort_ratio a b 0 \<le> 100"
  unfolding token_sort_ratio_def by (rule ratio_bounds)

lemma token_sort_ratio_cutoff:
  "token_sort_ratio a b c = (if c \<le> token_sort_ratio a b 0 then token_sort_ratio a b 0 else 0)"
  unfolding token_sort_ratio_def by (rule ratio_cutoff)

subsection \<open>\<open>extractOne\<close> returns the first choice of maximal score\<close>

lemma extractOne_loop_some:
  assumes "0 \<le> s" "s < 100"
  shows "(extractOne_loop token_sort_ratio p q choices k s (Some (ch, s, i)) = Some (ch, s, i)
           \<and> (\<forall>c \<in> set choices. token_sort_ratio q (p c) 0 \<le> s))
       \<or> (\<exists>j < length choices.
             extractOne_loop token_sort_ratio p q choices k s (Some (ch, s, i))
               = Some (choices ! j, token_sort_ratio q (p (choices ! j)) 0, k + j)
             \<and> s < token_sort_ratio q (p (choices ! j)) 0
             \<and> (\<forall>n < length choices.
                   token_sort_ratio q (p (choices ! n)) 0 \<le> token_sort_ratio q (p (choices ! j)) 0)
             \<and> (\<forall>n < j.
                   token_sort_ratio q (p (choices ! n)) 0 < token_sort_ratio q (p (choices ! j)) 0))"
  using assms
proof (induction choices arbitrary: k s ch i)
  case Nil
  then show ?case by simp
next
  case (Cons x xs)
  let ?F = "\<lambda>c. token_sort_ratio q (p c) 0"
  let ?v = "?F x"
  have vb: "0 \<le> ?v" "?v \<le> 100" using token_sort_ratio_bounds by blast+
  show ?case
  proof (cases "s < ?v")
    case True
    then have sc: "token_sort_ratio q (p x) s = ?v"
      using token_sort_ratio_cutoff [of q "p x" s] by simp
    show ?thesis
    proof (cases "?v = 100")
      case v100: True
      have "extractOne_loop token_sort_ratio p q (x # xs) k s (Some (ch, s, i)) = Some (x, ?v, k)"
        using True sc v100 by (simp add: optimal_score_def Let_def)
      moreover have "\<forall>n < length (x # xs). ?F ((x # xs) ! n) \<le> ?v"
        using v100 token_sort_ratio_bounds by simp
      ultimately have "\<exists>j < length (x # xs).
             extractOne_loop token_sort_ratio p q (x # xs) k s (Some (ch, s, i))
               = Some ((x # xs) ! j, ?F ((x # xs) ! j), k + j)
             \<and> s < ?F ((x # xs) ! j)
             \<and> (\<forall>n < length (x # xs). ?F ((x # xs) ! n) \<le> ?F ((x # xs) ! j))
             \<and> (\<forall>n < j. ?F ((x # xs) ! n) < ?F ((x # xs) ! j))"
        using True by (intro exI [of _ 0]) simp
      then show ?thesis by blast
    next
      case False
      then have v_lt: "?v < 100" using vb by simp
      have step: "extractOne_loop token_sort_ratio p q (x # xs) k s (Some (ch, s, i))
          = extractOne_loop token_sort_ratio p q xs (Suc k) ?v (Some (x, ?v, k))"
        using True sc False by (simp add: optimal_score_def Let_def)
      from Cons.IH [OF vb(1) v_lt, of "Suc k" x k]
      show ?thesis
      proof
        assume a: "extractOne_loop token_sort_ratio p q xs (Suc k) ?v (Some (x, ?v, k)) = Some (x, ?v, k)
           \<and> (\<forall>c \<in> set xs. ?F c \<le> ?v)"
        then have "\<forall>n < length (x # xs). ?F ((x # xs) ! n) \<le> ?v"
          by (auto simp add: nth_Cons split: nat.splits)
        then have "\<exists>j < length (x # xs).
             extractOne_loop token_sort_ratio p q (x # xs) k s (Some (ch, s, i))
               = Some ((x # xs) ! j, ?F ((x # xs) ! j), k + j)
             \<and> s < ?F ((x # xs) ! j)
             \<and> (\<forall>n < length (x # xs). ?F ((x # xs) ! n) \<le> ?F ((x # xs) ! j))
             \<and> (\<forall>n < j. ?F ((x # xs) ! n) < ?F ((x # xs) ! j))"
          using True step a by (intro exI [of _ 0]) simp
        then show ?thesis by blast
      next
        assume "\<exists>j < length xs.
             extractOne_loop token_sort_ratio p q xs (Suc k) ?v (Some (x, ?v, k))
               = Some (xs ! j, ?F (xs ! j), Suc k + j)
             \<and> ?v < ?F (xs ! j)
             \<and> (\<forall>n < length xs. ?F (xs ! n) \<le> ?F (xs ! j))
             \<and> (\<forall>n < j. ?F (xs ! n) < ?F (xs ! j))"
        then obtain j where j: "j < length xs"
          "extractOne_loop token_sort_ratio p q xs (Suc k) ?v (Some (x, ?v, k))
               = Some (xs ! j, ?F (xs ! j), Suc k + j)"
          "?v < ?F (xs ! j)"
          "\<forall>n < length xs. ?F (xs ! n) \<le> ?F (xs ! j)"
          "\<forall>n < j. ?F (xs ! n) < ?F (xs ! j)"
          by blast
        have m1: "\<forall>n < length (x # xs). ?F ((x # xs) ! n) \<le> ?F ((x # xs) ! Suc j)"
          using j(3,4) by (auto simp add: nth_Cons split: nat.splits)
        have m2: "\<forall>n < Suc j. ?F ((x # xs) ! n) < ?F ((x # xs) ! Suc j)"
          using j(3,5) by (auto simp add: nth_Cons split: nat.splits)
        have "\<exists>j' < length (x # xs).
             extractOne_loop token_sort_ratio p q (x # xs) k s (Some (ch, s, i))
               = Some ((x # xs) ! j', ?F ((x # xs) ! j'), k + j')
             \<and> s < ?F ((x # xs) ! j')
             \<and> (\<forall>n < length (x # xs). ?F ((x # xs) ! n) \<le> ?F ((x # xs) ! j'))
             \<and> (\<forall>n < j'. ?F ((x # xs) ! n) < ?F ((x # xs) ! j'))"
          using True step j(1,2,3) m1 m2 by (intro exI [of _ "Suc j"]) simp
        then show ?thesis by blast
      qed
    qed
  next
    case False
    then have le: "?v \<le> s" by simp
    have sc: "token_sort_ratio q (p x) s = (if s \<le> ?v then ?v else 0)"
      using token_sort_ratio_cutoff [of q "p x" s] by simp
    have nb: "\<not> (s \<le> token_sort_ratio q (p x) s \<and> s < token_sort_ratio q (p x) s)"
      using le sc Cons.prems by (auto split: if_splits)
    have no: "token_sort_ratio q (p x) s \<noteq> optimal_score"
      using le sc Cons.prems by (auto simp add: optimal_score_def split: if_splits)
    have step: "extractOne_loop token_sort_ratio p q (x # xs) k s (Some (ch, s, i))
          = extractOne_loop token_sort_ratio p q xs (Suc k) s (Some (ch, s, i))"
      by (simp add: Let_def nb no)
    from Cons.IH [OF Cons.prems, of "Suc k" ch i]
    show ?thesis
    proof
      assume "extractOne_loop token_sort_ratio p q xs (Suc k) s (Some (ch, s, i)) = Some (ch, s, i)
           \<and> (\<forall>c \<in> set xs. ?F c \<le> s)"
      then show ?thesis using step le by simp
    next
      assume "\<exists>j < length xs.
             extractOne_loop token_sort_ratio p q xs (Suc k) s (Some (ch, s, i))
               = Some (xs ! j, ?F (xs ! j), Suc k + j)
             \<and> s < ?F (xs ! j)
             \<and> (\<forall>n < length xs. ?F (xs ! n) \<le> ?F (xs ! j))
             \<and> (\<forall>n < j. ?F (xs ! n) < ?F (xs ! j))"
      then obtain j where j: "j < length xs"
          "extractOne_loop token_sort_ratio p q xs (Suc k) s (Some (ch, s, i))
               = Some (xs ! j, ?F (xs ! j), Suc k + j)"
          "s < ?F (xs ! j)"
          "\<forall>n < length xs. ?F (xs ! n) \<le> ?F (xs ! j)"
          "\<forall>n < j. ?F (xs ! n) < ?F (xs ! j)"
        by blast
      have m1: "\<forall>n < length (x # xs). ?F ((x # xs) ! n) \<le> ?F ((x # xs) ! Suc j)"
        using j(3,4) le by (auto simp add: nth_Cons split: nat.splits)
      have m2: "\<forall>n < Suc j. ?F ((x # xs) ! n) < ?F ((x # xs) ! Suc j)"
        using j(3,5) le by (auto simp add: nth_Cons split: nat.splits)
      have "\<exists>j' < length (x # xs).
             extractOne_loop token_sort_ratio p q (x # xs) k s (Some (ch, s, i))
               = Some ((x # xs) ! j', ?F ((x # xs) ! j'), k + j')
             \<and> s < ?F ((x # xs) ! j')
             \<and> (\<forall>n < length (x # xs). ?F ((x # xs) ! n) \<le> ?F ((x # xs) ! j'))
             \<and> (\<forall>n < j'. ?F ((x # xs) ! n) < ?F ((x # xs) ! j'))"
        using step j(1,2,3) m1 m2 by (intro exI [of _ "Suc j"]) simp
      then show ?thesis by blast
    qed
  qed
qed

section \<open>Identity Matcher: \<open>find_musicbrainz_url\<close>, lines 56 to 62\<close>

text \<open>
  Exceptions are values. A candidate is one entry of the registry's \<open>artists\<close> list: the
  keys \<open>score\<close>, \<open>name\<close>, \<open>id\<close> and \<open>life-span\<close> are in every entry; \<open>type\<close>,
  \<open>gender\<close>, \<open>country\<close>, \<open>begin-area\<close>, \<open>end-area\<close> and the \<open>begin\<close> and \<open>end\<close> of the
  life span may be absent (\<open>None\<close>). A response of any other shape is \<open>Malformed\<close> below.
\<close>

datatype error = RequestException | JSONDecodeError | IndexError | KeyError
  | TypeError | AttributeError | ValueError

record candidate =
  score :: int
  name :: string
  cand_id :: string
  cand_type :: "string option"
  cand_gender :: "string option"
  cand_country :: "string option"
  life_span_begin :: "string option"
  life_span_end :: "string option"
  begin_area :: "string option"
  end_area :: "string option"

text \<open>
  Lines 56 to 62, the value of \<open>idx\<close>: \<open>matches[0]\<close> raises \<open>IndexError\<close> on the empty list;
  a first candidate of score 100 is taken; otherwise the index \<open>extractOne\<close> returns
  (unpacking its \<open>None\<close> would raise \<open>TypeError\<close>).
\<close>

definition match_idx :: "string \<Rightarrow> candidate list \<Rightarrow> error + nat" where
  "match_idx artist_name matches =
     (case matches of
        [] \<Rightarrow> Inl IndexError
      | m # _ \<Rightarrow>
          if score m = 100 then Inr 0
          else (case extractOne token_sort_ratio lower artist_name (map name matches) of
                  None \<Rightarrow> Inl TypeError
                | Some (_, _, idx) \<Rightarrow> Inr idx))"

text \<open>
  The similarity as the specification words it: the lower-cased query against the
  candidate's display name as it stands.
\<close>

definition spec_similarity :: "string \<Rightarrow> string \<Rightarrow> rat" where
  "spec_similarity artist_name display_name =
     token_sort_ratio (lower artist_name) display_name worst_score"

definition cand :: "int \<Rightarrow> string \<Rightarrow> candidate" where
  "cand s n = \<lparr>score = s, name = n, cand_id = ''ID-'' @ n, cand_type = Some ''Group'',
     cand_gender = None, cand_country = Some ''GB '', life_span_begin = Some ''1960'',
     life_span_end = None, begin_area = None, end_area = None\<rparr>"

lemma extractOne_loop_none:
  assumes "choices \<noteq> []"
  shows "\<exists>j < length choices.
           extractOne_loop token_sort_ratio p q choices k 0 None
             = Some (choices ! j, token_sort_ratio q (p (choices ! j)) 0, k + j)
           \<and> (\<forall>n < length choices.
                 token_sort_ratio q (p (choices ! n)) 0 \<le> token_sort_ratio q (p (choices ! j)) 0)
           \<and> (\<forall>n < j.
                 token_sort_ratio q (p (choices ! n)) 0 < token_sort_ratio q (p (choices ! j)) 0)"
proof -
  from assms obtain x xs where c: "choices = x # xs"
    by (cases choices) auto
  let ?F = "\<lambda>c. token_sort_ratio q (p c) 0"
  let ?v = "?F x"
  have vb: "0 \<le> ?v" "?v \<le> 100" using token_sort_ratio_bounds by blast+
  show ?thesis
  proof (cases "?v = 100")
    case True
    have "extractOne_loop token_sort_ratio p q (x # xs) k 0 None = Some (x, ?v, k)"
      using True by (simp add: optimal_score_def Let_def)
    moreover have "\<forall>n < length (x # xs). ?F ((x # xs) ! n) \<le> ?v"
      using True token_sort_ratio_bounds by simp
    ultimately show ?thesis
      unfolding c by (intro exI [of _ 0]) simp
  next
    case False
    then have v_lt: "?v < 100" using vb by simp
    have step: "extractOne_loop token_sort_ratio p q (x # xs) k 0 None
        = extractOne_loop token_sort_ratio p q xs (Suc k) ?v (Some (x, ?v, k))"
      using False vb by (simp add: optimal_score_def Let_def)
    from extractOne_loop_some [OF vb(1) v_lt, of p q xs "Suc k" x k]
    show ?thesis
    proof
      assume a: "extractOne_loop token_sort_ratio p q xs (Suc k) ?v (Some (x, ?v, k)) = Some (x, ?v, k)
           \<and> (\<forall>c \<in> set xs. ?F c \<le> ?v)"
      then have "\<forall>n < length (x # xs). ?F ((x # xs) ! n) \<le> ?v"
        by (auto simp add: nth_Cons split: nat.splits)
      then show ?thesis
        unfolding c using step a by (intro exI [of _ 0]) simp
    next
      assume "\<exists>j < length xs.
             extractOne_loop token_sort_ratio p q xs (Suc k) ?v (Some (x, ?v, k))
               = Some (xs ! j, ?F (xs ! j), Suc k + j)
             \<and> ?v < ?F (xs ! j)
             \<and> (\<forall>n < length xs. ?F (xs ! n) \<le> ?F (xs ! j))
             \<and> (\<forall>n < j. ?F (xs ! n) < ?F (xs ! j))"
      then obtain j where j: "j < length xs"
          "extractOne_loop token_sort_ratio p q xs (Suc k) ?v (Some (x, ?v, k))
               = Some (xs ! j, ?F (xs ! j), Suc k + j)"
          "?v < ?F (xs ! j)"
          "\<forall>n < length xs. ?F (xs ! n) \<le> ?F (xs ! j)"
          "\<forall>n < j. ?F (xs ! n) < ?F (xs ! j)"
        by blast
      have m1: "\<forall>n < length (x # xs). ?F ((x # xs) ! n) \<le> ?F ((x # xs) ! Suc j)"
        using j(3,4) by (auto simp add: nth_Cons split: nat.splits)
      have m2: "\<forall>n < Suc j. ?F ((x # xs) ! n) < ?F ((x # xs) ! Suc j)"
        using j(3,5) by (auto simp add: nth_Cons split: nat.splits)
      show ?thesis
        unfolding c using step j(1,2) m1 m2 by (intro exI [of _ "Suc j"]) simp
    qed
  qed
qed

lemma extractOne_first_max:
  assumes "matches \<noteq> []"
  shows "\<exists>idx < length matches.
           extractOne token_sort_ratio lower artist_name (map name matches)
             = Some (name (matches ! idx), similarity artist_name (name (matches ! idx)), idx)
           \<and> (\<forall>n < length matches.
                 similarity artist_name (name (matches ! n))
                   \<le> similarity artist_name (name (matches ! idx)))
           \<and> (\<forall>n < idx.
                 similarity artist_name (name (matches ! n))
                   < similarity artist_name (name (matches ! idx)))"
proof -
  have ne: "map name matches \<noteq> []" using assms by simp
  from extractOne_loop_none [OF ne, of lower "lower artist_name" 0]
  obtain j where j: "j < length (map name matches)"
    "extractOne_loop token_sort_ratio lower (lower artist_name) (map name matches) 0 0 None
       = Some (map name matches ! j,
               token_sort_ratio (lower artist_name) (lower (map name matches ! j)) 0, 0 + j)"
    "\<forall>n < length (map name matches).
        token_sort_ratio (lower artist_name) (lower (map name matches ! n)) 0
          \<le> token_sort_ratio (lower artist_name) (lower (map name matches ! j)) 0"
    "\<forall>n < j. token_sort_ratio (lower artist_name) (lower (map name matches ! n)) 0
          < token_sort_ratio (lower artist_name) (lower (map name matches ! j)) 0"
    by blast
  have jl: "j < length matches" using j(1) by simp
  have a: "extractOne token_sort_ratio lower artist_name (map name matches)
      = Some (name (matches ! j), similarity artist_name (name (matches ! j)), j)"
    using j(2) jl by (simp add: extractOne_def similarity_def worst_score_def)
  have b: "\<forall>n < length matches.
      similarity artist_name (name (matches ! n)) \<le> similarity artist_name (name (matches ! j))"
    using j(3) jl by (simp add: similarity_def worst_score_def)
  have c: "\<forall>n < j.
      similarity artist_name (name (matches ! n)) < similarity artist_name (name (matches ! j))"
    using j(4) jl by (simp add: similarity_def worst_score_def)
  show ?thesis using jl a b c by blast
qed

text \<open>
  Claim C1, as amended. For every non-empty candidate list: if the first candidate's score
  is 100, that candidate is selected; otherwise the selected candidate is the first one, in
  registry order, of maximal token-sort similarity between the lower-cased query and the
  lower-cased display name. No threshold applies: an index into the list is always
  returned.
\<close>

theorem match_idx_resolution:
  assumes "matches \<noteq> []"
  shows "(score (hd matches) = 100 \<longrightarrow> match_idx artist_name matches = Inr 0)
       \<and> (score (hd matches) \<noteq> 100 \<longrightarrow>
            (\<exists>idx < length matches.
               match_idx artist_name matches = Inr idx
               \<and> (\<forall>n < length matches.
                     similarity artist_name (name (matches ! n))
                       \<le> similarity artist_name (name (matches ! idx)))
               \<and> (\<forall>n < idx.
                     similarity artist_name (name (matches ! n))
                       < similarity artist_name (name (matches ! idx)))))"
proof -
  from assms obtain m ms where c: "matches = m # ms"
    by (cases matches) auto
  have first: "score (hd matches) = 100 \<longrightarrow> match_idx artist_name matches = Inr 0"
    by (simp add: c match_idx_def)
  have rest: "score (hd matches) \<noteq> 100 \<longrightarrow>
            (\<exists>idx < length matches.
               match_idx artist_name matches = Inr idx
               \<and> (\<forall>n < length matches.
                     similarity artist_name (name (matches ! n))
                       \<le> similarity artist_name (name (matches ! idx)))
               \<and> (\<forall>n < idx.
                     similarity artist_name (name (matches ! n))
                       < similarity artist_name (name (matches ! idx))))"
  proof
    assume ns: "score (hd matches) \<noteq> 100"
    from extractOne_first_max [OF assms, of artist_name]
    obtain idx where i: "idx < length matches"
      "extractOne token_sort_ratio lower artist_name (map name matches)
         = Some (name (matches ! idx), similarity artist_name (name (matches ! idx)), idx)"
      "\<forall>n < length matches.
          similarity artist_name (name (matches ! n)) \<le> similarity artist_name (name (matches ! idx))"
      "\<forall>n < idx.
          similarity artist_name (name (matches ! n)) < similarity artist_name (name (matches ! idx))"
      by blast
    have "match_idx artist_name matches = Inr idx"
      using ns i(2) unfolding c by (simp add: match_idx_def)
    with i(1,3,4) show "\<exists>idx < length matches.
               match_idx artist_name matches = Inr idx
               \<and> (\<forall>n < length matches.
                     similarity artist_name (name (matches ! n))
                       \<le> similarity artist_name (name (matches ! idx)))
               \<and> (\<forall>n < idx.
                     similarity artist_name (name (matches ! n))
                       < similarity artist_name (name (matches ! idx)))"
      by blast
  qed
  from first rest show ?thesis by blast
qed

lemma sim_tribute: "similarity ''Beatles'' ''Beatles Tribute'' = 700 / 11"
  by (simp add: similarity_def token_sort_ratio_def ratio_def split_def is_space_def
      indel_distance_def lower_def lower_char_def worst_score_def)

lemma sim_the: "similarity ''Beatles'' ''The Beatles'' = 700 / 9"
  by (simp add: similarity_def token_sort_ratio_def ratio_def split_def is_space_def
      indel_distance_def lower_def lower_char_def worst_score_def)

theorem match_idx_resolution_witness:
  "match_idx ''Beatles'' [cand 100 ''Beatles Tribute'', cand 90 ''The Beatles''] = Inr 0
   \<and> match_idx ''Beatles'' [cand 95 ''Beatles Tribute'', cand 90 ''The Beatles''] = Inr 1"
proof -
  have a: "match_idx ''Beatles'' [cand 100 ''Beatles Tribute'', cand 90 ''The Beatles''] = Inr 0"
    using match_idx_resolution
      [of "[cand 100 ''Beatles Tribute'', cand 90 ''The Beatles'']" "''Beatles''"]
    by (simp add: cand_def)
  from match_idx_resolution
      [of "[cand 95 ''Beatles Tribute'', cand 90 ''The Beatles'']" "''Beatles''"]
  obtain idx where i: "idx < 2"
    "match_idx ''Beatles'' [cand 95 ''Beatles Tribute'', cand 90 ''The Beatles''] = Inr idx"
    "\<forall>n < 2. similarity ''Beatles''
         (name ([cand 95 ''Beatles Tribute'', cand 90 ''The Beatles''] ! n))
       \<le> similarity ''Beatles''
         (name ([cand 95 ''Beatles Tribute'', cand 90 ''The Beatles''] ! idx))"
    by (auto simp add: cand_def)
  have "idx \<noteq> 0"
  proof
    assume "idx = 0"
    with i(3) have "similarity ''Beatles'' ''The Beatles'' \<le> similarity ''Beatles'' ''Beatles Tribute''"
      by (auto simp add: cand_def dest: spec [of _ 1])
    then show False by (simp add: sim_the sim_tribute)
  qed
  with i(1) have "idx = 1" by simp
  with i(2) a show ?thesis by simp
qed

text \<open>
  Claim C1 as the specification states it compares the lower-cased query with the display
  name itself. For the query \<open>ab\<close> and the candidates \<open>AB\<close> and \<open>ac\<close> that similarity is 0
  and 50, and the code selects the first candidate, not the maximal one.
\<close>

theorem match_idx_raw_name_counterexample:
  "match_idx ''ab'' [cand 90 ''AB'', cand 80 ''ac''] = Inr 0
   \<and> spec_similarity ''ab'' (name (cand 90 ''AB'')) = 0
   \<and> spec_similarity ''ab'' (name (cand 80 ''ac'')) = 50"
  by (simp add: match_idx_def extractOne_def cand_def spec_similarity_def
      token_sort_ratio_def ratio_def split_def is_space_def optimal_score_def
      indel_distance_def lower_def lower_char_def worst_score_def Let_def)

text \<open>The scorer does not see the order of the tokens.\<close>

lemma token_sort_ratio_order_insensitive:
  "mset (split a) = mset (split a') \<Longrightarrow> token_sort_ratio a b c = token_sort_ratio a' b c"
proof -
  assume "mset (split a) = mset (split a')"
  then have "sort (split a) = sort (split a')"
    by (metis properties_for_sort sorted_sort mset_sort)
  then show ?thesis by (simp add: token_sort_ratio_def)
qed

section \<open>Registry lookup and detail scrape: \<open>scrape_artist_data.main\<close>\<close>

text \<open>
  A row of the artists snapshot. \<open>artist\<close> is the key of the snapshot and holds a string in
  every row; every other column holds a string or null (\<open>None\<close>). \<open>mb_id\<close> marks the
  registry lookup as done, \<open>genius_url\<close> the detail scrape.
\<close>

record artist_row =
  artist :: string
  type :: "string option"
  gender :: "string option"
  country :: "string option"
  time_begin :: "string option"
  time_end :: "string option"
  begin_area_id :: "string option"
  end_area_id :: "string option"
  mb_id :: "string option"
  wikidata_id :: "string option"
  discogs_id :: "string option"
  genius_url :: "string option"

text \<open>
  What \<open>requests.get\<close> gives for the search URL: it raises (\<open>NoResponse\<close>), or it returns
  a status code and a body; the body is the \<open>artists\<close> list, or anything \<open>res.json()\<close> or
  \<open>res_dict["artists"]\<close> raises on (\<open>Malformed\<close>).
\<close>

datatype body = Malformed | Artists "candidate list"

datatype mb_response = NoResponse | Response nat body

record query_dict =
  q_type :: "string option"
  q_gender :: "string option"
  q_country :: "string option"
  q_time_begin :: "string option"
  q_time_end :: "string option"
  q_begin_area_id :: "string option"
  q_end_area_id :: "string option"
  q_mb_id :: string

text \<open>
  What a run does to the outside, in order: a request to the registry for an artist name, a
  request for the relationships page of an identifier, a line printed, a \<open>time.sleep\<close> of
  so many seconds.
\<close>

datatype event = Search string | Details string | Print string | Sleep nat

text \<open>Lines 65 to 72: the dictionary built from the selected candidate.\<close>

definition make_query_dict :: "candidate \<Rightarrow> query_dict" where
  "make_query_dict m =
     \<lparr>q_type = map_option (\<lambda>s. strip (lower s)) (cand_type m),
      q_gender = map_option (\<lambda>s. strip (lower s)) (cand_gender m),
      q_country = map_option (\<lambda>s. strip (lower s)) (cand_country m),
      q_time_begin = life_span_begin m,
      q_time_end = life_span_end m,
      q_begin_area_id = begin_area m,
      q_end_area_id = end_area m,
      q_mb_id = strip (lower (cand_id m))\<rparr>"

text \<open>
  \<open>find_musicbrainz_url\<close>, lines 37 to 75. The request of line 47 is the only one; a status
  other than 200 falls off the end of the function, which returns \<open>None\<close>. The result comes
  with the requests made.
\<close>

definition find_musicbrainz_url ::
  "(string \<Rightarrow> mb_response) \<Rightarrow> string \<Rightarrow> (error + query_dict option) \<times> event list" where
  "find_musicbrainz_url requests_get artist_name =
     ((case requests_get artist_name of
         NoResponse \<Rightarrow> Inl RequestException
       | Response status_code res_body \<Rightarrow>
           if status_code = 200 then
             (case res_body of
                Malformed \<Rightarrow> Inl JSONDecodeError
              | Artists matches \<Rightarrow>
                  (case match_idx artist_name matches of
                     Inl e \<Rightarrow> Inl e
                   | Inr idx \<Rightarrow> Inr (Some (make_query_dict (matches ! idx)))))
           else Inr None),
      [Search artist_name])"

text \<open>
  \<open>get_artist_details\<close>, lines 79 to 114. The page is what the three \<open>soup.find\<close> calls see:
  for each favicon class the list item, if any, its anchor, if any, and the anchor's text
  and \<open>href\<close>. The status code is not read. An absent Wikidata or Discogs item gives the
  empty string, an absent Genius item gives \<open>None\<close>.
\<close>

datatype anchor = Anchor string "string option"

datatype li = Li "anchor option"

record page =
  wikidata_li :: "li option"
  discogs_li :: "li option"
  genius_li :: "li option"

datatype page_response = NoPage | Page page

record data_dict =
  d_wikidata_id :: string
  d_discogs_id :: string
  d_genius_url :: "string option"

fun split_on :: "char \<Rightarrow> string \<Rightarrow> string list" where
  "split_on sep [] = [[]]"
| "split_on sep (c # cs) =
     (if c = sep then [] # split_on sep cs
      else (case split_on sep cs of [] \<Rightarrow> [[c]] | t # ts \<Rightarrow> (c # t) # ts))"

definition anchor_text :: "li \<Rightarrow> error + string" where
  "anchor_text l =
     (case l of Li None \<Rightarrow> Inl AttributeError | Li (Some (Anchor t h)) \<Rightarrow> Inr t)"

definition anchor_href :: "li \<Rightarrow> error + string" where
  "anchor_href l =
     (case l of
        Li None \<Rightarrow> Inl TypeError
      | Li (Some (Anchor t None)) \<Rightarrow> Inl KeyError
      | Li (Some (Anchor t (Some h))) \<Rightarrow> Inr h)"

definition parse_details :: "page \<Rightarrow> error + data_dict" where
  "parse_details soup =
     (case (case wikidata_li soup of
              None \<Rightarrow> Inr []
            | Some l \<Rightarrow> (case anchor_text l of
                           Inl e \<Rightarrow> Inl e
                         | Inr t \<Rightarrow> Inr (strip (last (split_on CHR '':'' t))))) of
        Inl e \<Rightarrow> Inl e
      | Inr wikidata \<Rightarrow>
          (case (case discogs_li soup of
                   None \<Rightarrow> Inr []
                 | Some l \<Rightarrow> (case anchor_href l of
                                Inl e \<Rightarrow> Inl e
                              | Inr h \<Rightarrow> Inr (last (split_on CHR ''/'' h)))) of
             Inl e \<Rightarrow> Inl e
           | Inr discogs \<Rightarrow>
               (case (case genius_li soup of
                        None \<Rightarrow> Inr None
                      | Some l \<Rightarrow> (case anchor_href l of
                                     Inl e \<Rightarrow> Inl e
                                   | Inr h \<Rightarrow> Inr (Some h))) of
                  Inl e \<Rightarrow> Inl e
                | Inr genius \<Rightarrow>
                    Inr \<lparr>d_wikidata_id = wikidata, d_discogs_id = discogs,
                         d_genius_url = genius\<rparr>)))"

definition get_artist_details ::
  "(string \<Rightarrow> page_response) \<Rightarrow> string \<Rightarrow> (error + data_dict) \<times> event list" where
  "get_artist_details requests_get mb =
     ((case requests_get mb of
         NoPage \<Rightarrow> Inl RequestException
       | Page soup \<Rightarrow> parse_details soup),
      [Details mb])"

text \<open>
  The remote services during one run, by row: \<open>registry e r\<close> answers the request made for
  row \<open>r\<close>, \<open>relationships e r\<close> the page request made for row \<open>r\<close>. A run requests each row
  at most once per stage, so nothing is lost by the indexing.
\<close>

record env =
  registry :: "nat \<Rightarrow> string \<Rightarrow> mb_response"
  relationships :: "nat \<Rightarrow> string \<Rightarrow> page_response"

record world =
  df_artists :: "artist_row list"
  out :: "event list"

text \<open>Lines 223 to 224 and 244 to 245: every key of the dictionary is written onto the row.\<close>

definition write_query_dict :: "query_dict \<Rightarrow> artist_row \<Rightarrow> artist_row" where
  "write_query_dict mb_data row =
     row\<lparr>type := q_type mb_data, gender := q_gender mb_data, country := q_country mb_data,
         time_begin := q_time_begin mb_data, time_end := q_time_end mb_data,
         begin_area_id := q_begin_area_id mb_data, end_area_id := q_end_area_id mb_data,
         mb_id := Some (q_mb_id mb_data)\<rparr>"

definition write_data_dict :: "data_dict \<Rightarrow> artist_row \<Rightarrow> artist_row" where
  "write_data_dict info_dict row =
     row\<lparr>wikidata_id := Some (d_wikidata_id info_dict),
         discogs_id := Some (d_discogs_id info_dict),
         genius_url := d_genius_url info_dict\<rparr>"

text \<open>
  Lines 213 and 236: \<open>df.query("mb_id!=mb_id").index\<close> and
  \<open>df.query("genius_url!=genius_url and mb_id==mb_id").index\<close>; a cell differs from itself
  exactly when it is null. The index is computed once, before the loop starts.
\<close>

definition pending_lookup :: "artist_row list \<Rightarrow> nat list" where
  "pending_lookup df = filter (\<lambda>r. mb_id (df ! r) = None) [0..<length df]"

definition pending_details :: "artist_row list \<Rightarrow> nat list" where
  "pending_details df =
     filter (\<lambda>r. genius_url (df ! r) = None \<and> mb_id (df ! r) \<noteq> None) [0..<length df]"

text \<open>
  The body of the first loop, lines 216 to 233, and of the second, lines 239 to 251. A
  dictionary is truthy (it has eight keys), \<open>None\<close> is not; the bare \<open>except\<close> catches
  everything the call raises. Row \<open>r\<close> is a label of the frame's own index, so the write is
  in range.
\<close>

definition lookup_step :: "env \<Rightarrow> nat \<Rightarrow> world \<Rightarrow> world" where
  "lookup_step e r w =
     (let row = df_artists w ! r in
      case find_musicbrainz_url (registry e r) (artist row) of
        (Inr (Some mb_data), io) \<Rightarrow>
          \<lparr>df_artists = (df_artists w)[r := write_query_dict mb_data row], out = out w @ io\<rparr>
      | (Inr None, io) \<Rightarrow>
          \<lparr>df_artists = df_artists w, out = out w @ io @ [Sleep 30]\<rparr>
      | (Inl exn, io) \<Rightarrow>
          \<lparr>df_artists = df_artists w, out = out w @ io @ [Print (artist row), Sleep 10]\<rparr>)"

text \<open>The f-string of line 85 prints a null identifier as \<open>None\<close>.\<close>

definition url_text :: "string option \<Rightarrow> string" where
  "url_text v = (case v of None \<Rightarrow> ''None'' | Some s \<Rightarrow> s)"

definition details_step :: "env \<Rightarrow> nat \<Rightarrow> world \<Rightarrow> world" where
  "details_step e r w =
     (let row = df_artists w ! r in
      case get_artist_details (relationships e r) (url_text (mb_id row)) of
        (Inr info_dict, io) \<Rightarrow>
          \<lparr>df_artists = (df_artists w)[r := write_data_dict info_dict row], out = out w @ io\<rparr>
      | (Inl exn, io) \<Rightarrow>
          \<lparr>df_artists = df_artists w, out = out w @ io @ [Print (artist row), Sleep 10]\<rparr>)"

text \<open>
  The run: the snapshot is loaded, the first loop runs over the rows pending at that
  moment, the second over the rows pending after the first, and the frame is saved.
\<close>

definition lookup_stage :: "env \<Rightarrow> world \<Rightarrow> world" where
  "lookup_stage e w = fold (lookup_step e) (pending_lookup (df_artists w)) w"

definition details_stage :: "env \<Rightarrow> world \<Rightarrow> world" where
  "details_stage e w = fold (details_step e) (pending_details (df_artists w)) w"

definition artist_main :: "env \<Rightarrow> artist_row list \<Rightarrow> world" where
  "artist_main e snapshot =
     details_stage e (lookup_stage e \<lparr>df_artists = snapshot, out = []\<rparr>)"

text \<open>The registry requests, the page requests and the seconds slept of a log.\<close>

fun searches :: "event list \<Rightarrow> string list" where
  "searches [] = []"
| "searches (Search a # es) = a # searches es"
| "searches (ev # es) = searches es"

fun scrapes :: "event list \<Rightarrow> string list" where
  "scrapes [] = []"
| "scrapes (Details m # es) = m # scrapes es"
| "scrapes (ev # es) = scrapes es"

definition blank :: "string \<Rightarrow> artist_row" where
  "blank a = \<lparr>artist = a, type = None, gender = None, country = None, time_begin = None,
     time_end = None, begin_area_id = None, end_area_id = None, mb_id = None,
     wikidata_id = None, discogs_id = None, genius_url = None\<rparr>"

subsection \<open>A loop step changes one row and appends to the log\<close>

definition lookup_row :: "env \<Rightarrow> nat \<Rightarrow> artist_row \<Rightarrow> artist_row" where
  "lookup_row e r row =
     (case fst (find_musicbrainz_url (registry e r) (artist row)) of
        Inr (Some mb_data) \<Rightarrow> write_query_dict mb_data row
      | Inr None \<Rightarrow> row
      | Inl exn \<Rightarrow> row)"

definition lookup_events :: "env \<Rightarrow> nat \<Rightarrow> artist_row \<Rightarrow> event list" where
  "lookup_events e r row =
     (case fst (find_musicbrainz_url (registry e r) (artist row)) of
        Inr (Some mb_data) \<Rightarrow> [Search (artist row)]
      | Inr None \<Rightarrow> [Search (artist row), Sleep 30]
      | Inl exn \<Rightarrow> [Search (artist row), Print (artist row), Sleep 10])"

definition details_row :: "env \<Rightarrow> nat \<Rightarrow> artist_row \<Rightarrow> artist_row" where
  "details_row e r row =
     (case fst (get_artist_details (relationships e r) (url_text (mb_id row))) of
        Inr info_dict \<Rightarrow> write_data_dict info_dict row
      | Inl exn \<Rightarrow> row)"

definition details_events :: "env \<Rightarrow> nat \<Rightarrow> artist_row \<Rightarrow> event list" where
  "details_events e r row =
     (case fst (get_artist_details (relationships e r) (url_text (mb_id row))) of
        Inr info_dict \<Rightarrow> [Details (url_text (mb_id row))]
      | Inl exn \<Rightarrow> [Details (url_text (mb_id row)), Print (artist row), Sleep 10])"

definition row_step ::
  "(nat \<Rightarrow> artist_row \<Rightarrow> artist_row) \<Rightarrow> (nat \<Rightarrow> artist_row \<Rightarrow> event list)
     \<Rightarrow> nat \<Rightarrow> world \<Rightarrow> world" where
  "row_step f g r w =
     \<lparr>df_artists = (df_artists w)[r := f r (df_artists w ! r)],
      out = out w @ g r (df_artists w ! r)\<rparr>"

lemma find_musicbrainz_url_io:
  "snd (find_musicbrainz_url requests_get artist_name) = [Search artist_name]"
  by (simp add: find_musicbrainz_url_def)

lemma get_artist_details_io:
  "snd (get_artist_details requests_get mb) = [Details mb]"
  by (simp add: get_artist_details_def)

lemma lookup_step_row_step:
  "lookup_step e r w = row_step (lookup_row e) (lookup_events e) r w"
proof -
  obtain res io where p: "find_musicbrainz_url (registry e r) (artist (df_artists w ! r)) = (res, io)"
    by (cases "find_musicbrainz_url (registry e r) (artist (df_artists w ! r))") auto
  have io: "io = [Search (artist (df_artists w ! r))]"
    using find_musicbrainz_url_io [of "registry e r" "artist (df_artists w ! r)"] p by simp
  show ?thesis
  proof (cases res)
    case (Inl exn)
    then show ?thesis
      using p io by (simp add: lookup_step_def row_step_def lookup_row_def lookup_events_def Let_def)
  next
    case (Inr v)
    then show ?thesis
      using p io
      by (cases v) (simp_all add: lookup_step_def row_step_def lookup_row_def lookup_events_def Let_def)
  qed
qed

lemma details_step_row_step:
  "details_step e r w = row_step (details_row e) (details_events e) r w"
proof -
  obtain res io where p:
    "get_artist_details (relationships e r) (url_text (mb_id (df_artists w ! r))) = (res, io)"
    by (cases "get_artist_details (relationships e r) (url_text (mb_id (df_artists w ! r)))") auto
  have io: "io = [Details (url_text (mb_id (df_artists w ! r)))]"
    using get_artist_details_io [of "relationships e r" "url_text (mb_id (df_artists w ! r))"] p
    by simp
  show ?thesis
    using p io
    by (cases res) (simp_all add: details_step_def row_step_def details_row_def details_events_def Let_def)
qed

lemma fold_row_step:
  assumes "distinct rs"
  shows "length (df_artists (fold (row_step f g) rs w)) = length (df_artists w)
       \<and> (\<forall>i. df_artists (fold (row_step f g) rs w) ! i
              = (if i \<in> set rs \<and> i < length (df_artists w) then f i (df_artists w ! i)
                 else df_artists w ! i))
       \<and> out (fold (row_step f g) rs w)
           = out w @ concat (map (\<lambda>r. g r (df_artists w ! r)) rs)"
  using assms
proof (induction rs arbitrary: w)
  case Nil
  then show ?case by simp
next
  case (Cons r rs)
  let ?w1 = "row_step f g r w"
  have d: "distinct rs" and nr: "r \<notin> set rs" using Cons.prems by simp_all
  have len1: "length (df_artists ?w1) = length (df_artists w)"
    by (simp add: row_step_def)
  have nth1: "\<And>i. i \<noteq> r \<Longrightarrow> df_artists ?w1 ! i = df_artists w ! i"
    by (simp add: row_step_def)
  have nthr: "r < length (df_artists w) \<Longrightarrow> df_artists ?w1 ! r = f r (df_artists w ! r)"
    by (simp add: row_step_def)
  have nthr': "\<not> r < length (df_artists w) \<Longrightarrow> df_artists ?w1 ! r = df_artists w ! r"
    by (simp add: row_step_def list_update_beyond)
  have out1: "out ?w1 = out w @ g r (df_artists w ! r)"
    by (simp add: row_step_def)
  note ih = Cons.IH [OF d, of ?w1]
  have a: "length (df_artists (fold (row_step f g) (r # rs) w)) = length (df_artists w)"
    using ih len1 by simp
  have b: "\<forall>i. df_artists (fold (row_step f g) (r # rs) w) ! i
              = (if i \<in> set (r # rs) \<and> i < length (df_artists w) then f i (df_artists w ! i)
                 else df_artists w ! i)"
  proof
    fix i
    show "df_artists (fold (row_step f g) (r # rs) w) ! i
              = (if i \<in> set (r # rs) \<and> i < length (df_artists w) then f i (df_artists w ! i)
                 else df_artists w ! i)"
    proof (cases "i = r")
      case True
      then have "df_artists (fold (row_step f g) (r # rs) w) ! i = df_artists ?w1 ! r"
        using ih nr by simp
      then show ?thesis using True nthr nthr' by (cases "r < length (df_artists w)") simp_all
    next
      case False
      then show ?thesis using ih len1 nth1 [OF False] by simp
    qed
  qed
  have mc: "map (\<lambda>x. g x (df_artists ?w1 ! x)) rs = map (\<lambda>x. g x (df_artists w ! x)) rs"
  proof (intro map_cong refl)
    fix x assume "x \<in> set rs"
    then have "x \<noteq> r" using nr by auto
    then show "g x (df_artists ?w1 ! x) = g x (df_artists w ! x)"
      using nth1 by simp
  qed
  have o: "out (fold (row_step f g) rs ?w1)
      = out ?w1 @ concat (map (\<lambda>x. g x (df_artists ?w1 ! x)) rs)"
    using ih by blast
  have c: "out (fold (row_step f g) (r # rs) w)
           = out w @ concat (map (\<lambda>x. g x (df_artists w ! x)) (r # rs))"
    by (simp add: o mc out1)
  from a b c show ?case by blast
qed

lemma distinct_pending_lookup: "distinct (pending_lookup df)"
  by (simp add: pending_lookup_def)

lemma distinct_pending_details: "distinct (pending_details df)"
  by (simp add: pending_details_def)

lemma lookup_stage_row_step:
  "lookup_stage e w
     = fold (row_step (lookup_row e) (lookup_events e)) (pending_lookup (df_artists w)) w"
proof -
  have "lookup_step e = row_step (lookup_row e) (lookup_events e)"
    by (intro ext) (rule lookup_step_row_step)
  then show ?thesis by (simp add: lookup_stage_def)
qed

lemma details_stage_row_step:
  "details_stage e w
     = fold (row_step (details_row e) (details_events e)) (pending_details (df_artists w)) w"
proof -
  have "details_step e = row_step (details_row e) (details_events e)"
    by (intro ext) (rule details_step_row_step)
  then show ?thesis by (simp add: details_stage_def)
qed

lemma lookup_stage_length:
  "length (df_artists (lookup_stage e w)) = length (df_artists w)"
  using fold_row_step [OF distinct_pending_lookup] by (simp add: lookup_stage_row_step)

lemma lookup_stage_nth:
  assumes "i < length (df_artists w)"
  shows "df_artists (lookup_stage e w) ! i
     = (if mb_id (df_artists w ! i) = None then lookup_row e i (df_artists w ! i)
        else df_artists w ! i)"
proof -
  have m: "i \<in> set (pending_lookup (df_artists w)) \<longleftrightarrow> mb_id (df_artists w ! i) = None"
    using assms by (simp add: pending_lookup_def)
  from fold_row_step [OF distinct_pending_lookup, of "lookup_row e" "lookup_events e" "df_artists w" w]
  have "df_artists (lookup_stage e w) ! i
      = (if i \<in> set (pending_lookup (df_artists w)) \<and> i < length (df_artists w)
         then lookup_row e i (df_artists w ! i) else df_artists w ! i)"
    unfolding lookup_stage_row_step by blast
  then show ?thesis using assms by (simp only: m) simp
qed

lemma lookup_stage_out:
  "out (lookup_stage e w)
     = out w @ concat (map (\<lambda>r. lookup_events e r (df_artists w ! r)) (pending_lookup (df_artists w)))"
  using fold_row_step [OF distinct_pending_lookup, of "lookup_row e" "lookup_events e" "df_artists w" w]
  by (simp add: lookup_stage_row_step)

lemma details_stage_length:
  "length (df_artists (details_stage e w)) = length (df_artists w)"
  using fold_row_step [OF distinct_pending_details] by (simp add: details_stage_row_step)

lemma details_stage_nth:
  assumes "i < length (df_artists w)"
  shows "df_artists (details_stage e w) ! i
     = (if genius_url (df_artists w ! i) = None \<and> mb_id (df_artists w ! i) \<noteq> None
        then details_row e i (df_artists w ! i)
        else df_artists w ! i)"
proof -
  have m: "i \<in> set (pending_details (df_artists w))
      \<longleftrightarrow> genius_url (df_artists w ! i) = None \<and> mb_id (df_artists w ! i) \<noteq> None"
    using assms by (simp add: pending_details_def)
  from fold_row_step [OF distinct_pending_details, of "details_row e" "details_events e" "df_artists w" w]
  have "df_artists (details_stage e w) ! i
      = (if i \<in> set (pending_details (df_artists w)) \<and> i < length (df_artists w)
         then details_row e i (df_artists w ! i) else df_artists w ! i)"
    unfolding details_stage_row_step by blast
  then show ?thesis using assms by (simp only: m) simp
qed

lemma details_stage_out:
  "out (details_stage e w)
     = out w @ concat (map (\<lambda>r. details_events e r (df_artists w ! r)) (pending_details (df_artists w)))"
  using fold_row_step [OF distinct_pending_details, of "details_row e" "details_events e" "df_artists w" w]
  by (simp add: details_stage_row_step)

subsection \<open>Requests of a run\<close>

fun slept :: "event list \<Rightarrow> nat" where
  "slept [] = 0"
| "slept (Sleep n # es) = n + slept es"
| "slept (ev # es) = slept es"

definition resolved :: "string \<Rightarrow> string \<Rightarrow> string option \<Rightarrow> artist_row" where
  "resolved a m g = (blank a)\<lparr>mb_id := Some m, genius_url := g\<rparr>"

definition no_links :: page where
  "no_links = \<lparr>wikidata_li = None, discogs_li = None, genius_li = None\<rparr>"

definition beatles_env :: env where
  "beatles_env =
     \<lparr>registry = (\<lambda>r a. Response 200 (Artists [cand 100 ''The Beatles''])),
      relationships = (\<lambda>r m. Page no_links)\<rparr>"

definition down_env :: env where
  "down_env =
     \<lparr>registry = (\<lambda>r a. if r = 0 then NoResponse else Response 503 Malformed),
      relationships = (\<lambda>r m. NoPage)\<rparr>"

definition no_match_env :: env where
  "no_match_env =
     \<lparr>registry = (\<lambda>r a. Response 200 (Artists [])),
      relationships = (\<lambda>r m. NoPage)\<rparr>"

lemma searches_append: "searches (xs @ ys) = searches xs @ searches ys"
  by (induction xs rule: searches.induct) simp_all

lemma scrapes_append: "scrapes (xs @ ys) = scrapes xs @ scrapes ys"
  by (induction xs rule: scrapes.induct) simp_all

lemma searches_concat: "searches (concat xss) = concat (map searches xss)"
  by (induction xss) (simp_all add: searches_append)

lemma scrapes_concat: "scrapes (concat xss) = concat (map scrapes xss)"
  by (induction xss) (simp_all add: scrapes_append)

lemma searches_lookup_events: "searches (lookup_events e r row) = [artist row]"
  by (simp add: lookup_events_def split: sum.splits option.splits)

lemma scrapes_lookup_events: "scrapes (lookup_events e r row) = []"
  by (simp add: lookup_events_def split: sum.splits option.splits)

lemma searches_details_events: "searches (details_events e r row) = []"
  by (simp add: details_events_def split: sum.splits)

lemma scrapes_details_events: "scrapes (details_events e r row) = [url_text (mb_id row)]"
  by (simp add: details_events_def split: sum.splits)

lemma concat_singletons: "concat (map (\<lambda>x. [f x]) xs) = map f xs"
  by (induction xs) simp_all

lemma concat_empties: "concat (map (\<lambda>x. []) xs) = []"
  by (induction xs) simp_all

lemma searches_lookup_stage:
  "searches (out (lookup_stage e w))
     = searches (out w) @ map (\<lambda>r. artist (df_artists w ! r)) (pending_lookup (df_artists w))"
  by (simp add: lookup_stage_out searches_append searches_concat comp_def
      searches_lookup_events concat_singletons)

lemma scrapes_lookup_stage: "scrapes (out (lookup_stage e w)) = scrapes (out w)"
  by (simp add: lookup_stage_out scrapes_append scrapes_concat comp_def
      scrapes_lookup_events concat_empties)

lemma searches_details_stage: "searches (out (details_stage e w)) = searches (out w)"
  by (simp add: details_stage_out searches_append searches_concat comp_def
      searches_details_events concat_empties)

lemma scrapes_details_stage:
  "scrapes (out (details_stage e w))
     = scrapes (out w)
       @ map (\<lambda>r. url_text (mb_id (df_artists w ! r))) (pending_details (df_artists w))"
  by (simp add: details_stage_out scrapes_append scrapes_concat comp_def
      scrapes_details_events concat_singletons)

lemma searches_artist_main:
  "searches (out (artist_main e snapshot))
     = map (\<lambda>r. artist (snapshot ! r)) (pending_lookup snapshot)"
  by (simp add: artist_main_def searches_details_stage searches_lookup_stage)

lemma scrapes_artist_main:
  "scrapes (out (artist_main e snapshot))
     = map (\<lambda>r. url_text (mb_id (df_artists (lookup_stage e \<lparr>df_artists = snapshot, out = []\<rparr>) ! r)))
         (pending_details (df_artists (lookup_stage e \<lparr>df_artists = snapshot, out = []\<rparr>)))"
  by (simp add: artist_main_def scrapes_details_stage scrapes_lookup_stage)

lemma filter_index:
  "map (\<lambda>r. f (xs ! r)) (filter (\<lambda>r. P (xs ! r)) [0..<length xs]) = map f (filter P xs)"
proof -
  have "map (\<lambda>r. f (xs ! r)) (filter (\<lambda>r. P (xs ! r)) [0..<length xs])
      = map f (map ((!) xs) (filter (P \<circ> (!) xs) [0..<length xs]))"
    by (simp add: comp_def)
  also have "\<dots> = map f (filter P (map ((!) xs) [0..<length xs]))"
    by (simp only: filter_map)
  also have "\<dots> = map f (filter P xs)"
    by (simp only: map_nth)
  finally show ?thesis .
qed

lemma write_query_dict_keeps:
  "artist (write_query_dict d row) = artist row
   \<and> genius_url (write_query_dict d row) = genius_url row
   \<and> wikidata_id (write_query_dict d row) = wikidata_id row
   \<and> discogs_id (write_query_dict d row) = discogs_id row"
  by (simp add: write_query_dict_def)

lemma write_data_dict_keeps:
  "artist (write_data_dict d row) = artist row \<and> mb_id (write_data_dict d row) = mb_id row"
  by (simp add: write_data_dict_def)

lemma lookup_row_keeps:
  "artist (lookup_row e r row) = artist row \<and> genius_url (lookup_row e r row) = genius_url row"
  by (simp add: lookup_row_def write_query_dict_keeps split: sum.splits option.splits)

lemma details_row_keeps:
  "artist (details_row e r row) = artist row \<and> mb_id (details_row e r row) = mb_id row"
  by (simp add: details_row_def write_data_dict_keeps split: sum.splits)

lemma artist_main_length: "length (df_artists (artist_main e snapshot)) = length snapshot"
  by (simp add: artist_main_def details_stage_length lookup_stage_length)

lemma lookup_stage_genius_url:
  "r < length (df_artists w) \<Longrightarrow>
   genius_url (df_artists (lookup_stage e w) ! r) = genius_url (df_artists w ! r)"
  by (simp add: lookup_stage_nth lookup_row_keeps)

lemma lookup_stage_mb_id:
  "r < length (df_artists w) \<Longrightarrow> mb_id (df_artists w ! r) \<noteq> None \<Longrightarrow>
   mb_id (df_artists (lookup_stage e w) ! r) = mb_id (df_artists w ! r)"
  by (auto simp add: lookup_stage_nth)

lemma details_stage_mb_id:
  "r < length (df_artists w) \<Longrightarrow>
   mb_id (df_artists (details_stage e w) ! r) = mb_id (df_artists w ! r)"
  by (simp add: details_stage_nth details_row_keeps)

lemma details_stage_genius_url:
  "r < length (df_artists w) \<Longrightarrow> genius_url (df_artists w ! r) \<noteq> None \<Longrightarrow>
   genius_url (df_artists (details_stage e w) ! r) = genius_url (df_artists w ! r)"
  by (auto simp add: details_stage_nth)

lemma artist_main_mb_id:
  assumes "r < length snapshot" "mb_id (snapshot ! r) \<noteq> None"
  shows "mb_id (df_artists (artist_main e snapshot) ! r) = mb_id (snapshot ! r)"
proof -
  let ?w0 = "\<lparr>df_artists = snapshot, out = []\<rparr>"
  have "r < length (df_artists (lookup_stage e ?w0))"
    using assms(1) by (simp add: lookup_stage_length)
  then have "mb_id (df_artists (artist_main e snapshot) ! r)
      = mb_id (df_artists (lookup_stage e ?w0) ! r)"
    unfolding artist_main_def by (rule details_stage_mb_id)
  also have "\<dots> = mb_id (snapshot ! r)"
    using lookup_stage_mb_id [of r ?w0 e] assms by simp
  finally show ?thesis .
qed

lemma artist_main_genius_url:
  assumes "r < length snapshot" "genius_url (snapshot ! r) \<noteq> None"
  shows "genius_url (df_artists (artist_main e snapshot) ! r) = genius_url (snapshot ! r)"
proof -
  let ?w0 = "\<lparr>df_artists = snapshot, out = []\<rparr>"
  have l: "r < length (df_artists (lookup_stage e ?w0))"
    using assms(1) by (simp add: lookup_stage_length)
  have g: "genius_url (df_artists (lookup_stage e ?w0) ! r) = genius_url (snapshot ! r)"
    using lookup_stage_genius_url [of r ?w0 e] assms(1) by simp
  then have "genius_url (df_artists (lookup_stage e ?w0) ! r) \<noteq> None"
    using assms(2) by simp
  with l have "genius_url (df_artists (artist_main e snapshot) ! r)
      = genius_url (df_artists (lookup_stage e ?w0) ! r)"
    unfolding artist_main_def by (rule details_stage_genius_url)
  with g show ?thesis by simp
qed

definition after_lookup :: "env \<Rightarrow> artist_row list \<Rightarrow> artist_row list" where
  "after_lookup e snapshot = df_artists (lookup_stage e \<lparr>df_artists = snapshot, out = []\<rparr>)"

definition two_rows :: "artist_row list" where
  "two_rows = [blank ''beatles'', resolved ''abba'' ''m-abba'' (Some ''https://genius.com/artists/Abba'')]"

definition unlinked :: "artist_row list" where
  "unlinked = [resolved ''abba'' ''m-abba'' None]"

lemma slept_append: "slept (xs @ ys) = slept xs + slept ys"
  by (induction xs rule: slept.induct) simp_all

lemma match_idx_total:
  assumes "matches \<noteq> []"
  shows "\<exists>idx < length matches. match_idx artist_name matches = Inr idx"
proof -
  from assms obtain m ms where c: "matches = m # ms"
    by (cases matches) auto
  show ?thesis
  proof (cases "score m = 100")
    case True
    then show ?thesis by (simp add: c match_idx_def)
  next
    case False
    from extractOne_first_max [OF assms, of artist_name]
    obtain idx where "idx < length matches"
      "extractOne token_sort_ratio lower artist_name (map name matches)
         = Some (name (matches ! idx), similarity artist_name (name (matches ! idx)), idx)"
      by blast
    then show ?thesis
      using False unfolding c by (auto simp add: match_idx_def)
  qed
qed

subsection \<open>Enrichment Resume Tracker\<close>

text \<open>
  Claim C2, as amended. For every snapshot the stage-1 work-list is exactly the rows whose
  \<open>mb_id\<close> is null and the stage-2 work-list exactly the rows whose \<open>genius_url\<close> is null and
  whose \<open>mb_id\<close> is not, both in row order and without repetition. A run keeps no queue: its
  registry requests are those of the stage-1 work-list of the snapshot as loaded, and its
  page requests those of the stage-2 work-list of the frame as the first loop left it. That
  list holds the rows whose \<open>genius_url\<close> was null at load and whose \<open>mb_id\<close> is set by then,
  among them every row of the stage-2 work-list of the snapshot as loaded.
\<close>

theorem worklists:
  "set (pending_lookup df) = {r. r < length df \<and> mb_id (df ! r) = None}
   \<and> sorted (pending_lookup df) \<and> distinct (pending_lookup df)
   \<and> set (pending_details df)
       = {r. r < length df \<and> genius_url (df ! r) = None \<and> mb_id (df ! r) \<noteq> None}
   \<and> sorted (pending_details df) \<and> distinct (pending_details df)
   \<and> searches (out (artist_main e snapshot))
       = map (\<lambda>r. artist (snapshot ! r)) (pending_lookup snapshot)
   \<and> scrapes (out (artist_main e snapshot))
       = map (\<lambda>r. url_text (mb_id (after_lookup e snapshot ! r)))
           (pending_details (after_lookup e snapshot))
   \<and> set (pending_details (after_lookup e snapshot))
       = {r. r < length snapshot \<and> genius_url (snapshot ! r) = None
             \<and> mb_id (after_lookup e snapshot ! r) \<noteq> None}
   \<and> set (pending_details snapshot) \<subseteq> set (pending_details (after_lookup e snapshot))"
proof -
  let ?w0 = "\<lparr>df_artists = snapshot, out = []\<rparr>"
  have a: "set (pending_lookup df) = {r. r < length df \<and> mb_id (df ! r) = None}"
    by (auto simp add: pending_lookup_def)
  have b: "set (pending_details df)
       = {r. r < length df \<and> genius_url (df ! r) = None \<and> mb_id (df ! r) \<noteq> None}" for df
    by (auto simp add: pending_details_def)
  have c: "sorted (pending_lookup df)" "sorted (pending_details df)"
    unfolding pending_lookup_def pending_details_def by (rule sorted_wrt_filter, simp)+
  have d: "searches (out (artist_main e snapshot))
       = map (\<lambda>r. artist (snapshot ! r)) (pending_lookup snapshot)"
    by (rule searches_artist_main)
  have f: "scrapes (out (artist_main e snapshot))
       = map (\<lambda>r. url_text (mb_id (after_lookup e snapshot ! r)))
           (pending_details (after_lookup e snapshot))"
    unfolding after_lookup_def by (rule scrapes_artist_main)
  have len: "length (after_lookup e snapshot) = length snapshot"
    by (simp add: after_lookup_def lookup_stage_length)
  have gu: "genius_url (after_lookup e snapshot ! r) = genius_url (snapshot ! r)"
    if "r < length snapshot" for r
    using that lookup_stage_genius_url [of r ?w0 e] by (simp add: after_lookup_def)
  have mb: "mb_id (after_lookup e snapshot ! r) = mb_id (snapshot ! r)"
    if "r < length snapshot" "mb_id (snapshot ! r) \<noteq> None" for r
    using that lookup_stage_mb_id [of r ?w0 e] by (simp add: after_lookup_def)
  have g: "set (pending_details (after_lookup e snapshot))
       = {r. r < length snapshot \<and> genius_url (snapshot ! r) = None
             \<and> mb_id (after_lookup e snapshot ! r) \<noteq> None}"
    unfolding b [of "after_lookup e snapshot"] using len gu by auto
  have h: "set (pending_details snapshot) \<subseteq> set (pending_details (after_lookup e snapshot))"
    unfolding g unfolding b [of snapshot] using mb by auto
  from a b [of df] c d f g h distinct_pending_lookup distinct_pending_details
  show ?thesis by blast
qed

text \<open>
  Claim C2 as the specification states it has both work-lists computed by scanning the
  snapshot at the start of the run. For a snapshot of one unresolved row the stage-2
  work-list of the snapshot is empty, and the run still scrapes that row: line 236 scans the
  frame when the first loop has resolved it.
\<close>

theorem stage2_scan_counterexample:
  "pending_details [blank ''beatles''] = []
   \<and> scrapes (out (artist_main beatles_env [blank ''beatles''])) = [''id-the beatles'']"
  by (simp add: artist_main_def lookup_stage_def details_stage_def pending_lookup_def
      pending_details_def lookup_step_def details_step_def find_musicbrainz_url_def
      get_artist_details_def parse_details_def match_idx_def make_query_dict_def
      write_query_dict_def write_data_dict_def beatles_env_def no_links_def cand_def
      blank_def url_text_def lower_def lower_char_def strip_def is_space_def Let_def)

subsection \<open>Identity Matcher on the empty list\<close>

text \<open>
  Claim C7. The matcher fails on the empty candidate list, with the \<open>IndexError\<close> of
  \<open>matches[0]\<close>, and on no other list; \<open>find_musicbrainz_url\<close> raises that error exactly
  when the registry answers 200 with an empty list. The matching makes no request and
  \<open>find_musicbrainz_url\<close> makes exactly one, whatever the outcome.
\<close>

theorem match_idx_not_found:
  "(match_idx artist_name matches = Inl IndexError) = (matches = [])
   \<and> (\<exists>exn. match_idx artist_name matches = Inl exn) = (matches = [])
   \<and> (fst (find_musicbrainz_url requests_get artist_name) = Inl IndexError)
       = (requests_get artist_name = Response 200 (Artists []))
   \<and> snd (find_musicbrainz_url requests_get artist_name) = [Search artist_name]"
proof -
  have e: "match_idx artist_name [] = Inl IndexError"
    by (simp add: match_idx_def)
  have n: "matches \<noteq> [] \<Longrightarrow> \<exists>idx. match_idx artist_name matches = Inr idx" for matches
    using match_idx_total by blast
  have a: "(match_idx artist_name matches = Inl IndexError) = (matches = [])"
    using e n [of matches] by (cases "matches = []") auto
  have b: "(\<exists>exn. match_idx artist_name matches = Inl exn) = (matches = [])"
    using e n [of matches] by (cases "matches = []") auto
  have c: "(fst (find_musicbrainz_url requests_get artist_name) = Inl IndexError)
       = (requests_get artist_name = Response 200 (Artists []))"
  proof (cases "requests_get artist_name")
    case NoResponse
    then show ?thesis by (simp add: find_musicbrainz_url_def)
  next
    case (Response status_code res_body)
    show ?thesis
    proof (cases res_body)
      case Malformed
      then show ?thesis using Response by (simp add: find_musicbrainz_url_def)
    next
      case (Artists ms)
      show ?thesis
      proof (cases "ms = []")
        case True
        then show ?thesis using Response Artists e by (simp add: find_musicbrainz_url_def)
      next
        case False
        then obtain idx where "match_idx artist_name ms = Inr idx" using n by blast
        then show ?thesis using Response Artists False by (simp add: find_musicbrainz_url_def)
      qed
    qed
  qed
  from a b c find_musicbrainz_url_io show ?thesis by blast
qed

subsection \<open>Responses other than 200\<close>

text \<open>
  Claim C9, as amended. For every registry response with a status other than 200,
  \<open>find_musicbrainz_url\<close> raises nothing and returns \<open>None\<close>; the loop takes the empty
  branch: nothing is printed, the row is left as it was (so the next run requests it
  again), and the loop sleeps 30 seconds.
\<close>

theorem non_200_handled_as_empty:
  assumes "registry e r (artist (df_artists w ! r)) = Response status_code res_body"
    and "status_code \<noteq> 200"
  shows "find_musicbrainz_url (registry e r) (artist (df_artists w ! r))
           = (Inr None, [Search (artist (df_artists w ! r))])
       \<and> lookup_step e r w
           = w\<lparr>out := out w @ [Search (artist (df_artists w ! r)), Sleep 30]\<rparr>"
  using assms by (simp add: find_musicbrainz_url_def lookup_step_def Let_def)

theorem non_200_handled_as_empty_witness:
  "lookup_step down_env 1 \<lparr>df_artists = two_rows, out = []\<rparr>
     = \<lparr>df_artists = two_rows, out = [Search ''abba'', Sleep 30]\<rparr>"
proof -
  have h: "registry down_env 1 (artist (df_artists \<lparr>df_artists = two_rows, out = []\<rparr> ! 1))
      = Response 503 Malformed"
    by (simp add: down_env_def)
  have n: "(503::nat) \<noteq> 200" by simp
  show ?thesis
    using non_200_handled_as_empty [OF h n]
    by (simp add: two_rows_def resolved_def blank_def)
qed

text \<open>
  Claim C9 as the specification states it has a non-200 response caught and logged as a
  transport error. For a 503 response the call returns \<open>None\<close>, nothing is printed, and the
  sleep is the 30 seconds of the empty outcome.
\<close>

theorem non_200_counterexample:
  "fst (find_musicbrainz_url (registry down_env 1) ''abba'') = Inr None
   \<and> out (lookup_step down_env 1 \<lparr>df_artists = two_rows, out = []\<rparr>)
       = [Search ''abba'', Sleep 30]"
  by (simp add: find_musicbrainz_url_def lookup_step_def down_env_def two_rows_def
      resolved_def blank_def Let_def)

subsection \<open>Crawl Loop outcomes\<close>

text \<open>
  Claim C8, as amended. When the registry answers 200 with a non-empty candidate list, the
  fetch for a pending row returns the dictionary of the selected candidate, every field of
  which is written onto the row, and nothing is slept. The fetch returns \<open>None\<close> exactly when
  the registry answers with a status other than 200; then the row is left as it was and the
  loop sleeps 30 seconds. When the registry answers 200 with no candidate the row is left as
  it was too, but \<open>matches[0]\<close> has raised: the artist is printed and the loop sleeps 10
  seconds. In every case the loop goes on with the next item: the registry is asked for
  every pending row of the stage.
\<close>

theorem success_and_empty_outcomes:
  "(registry e r (artist (df_artists w ! r)) = Response 200 (Artists matches) \<and> matches \<noteq> [] \<longrightarrow>
      (\<exists>idx < length matches.
         match_idx (artist (df_artists w ! r)) matches = Inr idx
         \<and> lookup_step e r w
           = \<lparr>df_artists = (df_artists w)
                  [r := write_query_dict (make_query_dict (matches ! idx)) (df_artists w ! r)],
              out = out w @ [Search (artist (df_artists w ! r))]\<rparr>)
      \<and> slept (out (lookup_step e r w)) = slept (out w))
   \<and> (fst (find_musicbrainz_url (registry e r) (artist (df_artists w ! r))) = Inr (Some mb_data) \<longrightarrow>
      lookup_step e r w
        = \<lparr>df_artists = (df_artists w)[r := write_query_dict mb_data (df_artists w ! r)],
           out = out w @ [Search (artist (df_artists w ! r))]\<rparr>
      \<and> slept (out (lookup_step e r w)) = slept (out w))
   \<and> (fst (find_musicbrainz_url (registry e r) (artist (df_artists w ! r))) = Inr None)
       = (\<exists>status_code res_body.
            registry e r (artist (df_artists w ! r)) = Response status_code res_body
            \<and> status_code \<noteq> 200)
   \<and> (fst (find_musicbrainz_url (registry e r) (artist (df_artists w ! r))) = Inr None \<longrightarrow>
      lookup_step e r w = w\<lparr>out := out w @ [Search (artist (df_artists w ! r)), Sleep 30]\<rparr>
      \<and> slept (out (lookup_step e r w)) = slept (out w) + 30)
   \<and> (registry e r (artist (df_artists w ! r)) = Response 200 (Artists []) \<longrightarrow>
      lookup_step e r w
        = w\<lparr>out := out w @ [Search (artist (df_artists w ! r)),
                             Print (artist (df_artists w ! r)), Sleep 10]\<rparr>
      \<and> slept (out (lookup_step e r w)) = slept (out w) + 10)
   \<and> write_query_dict mb_data row
       = row\<lparr>type := q_type mb_data, gender := q_gender mb_data, country := q_country mb_data,
             time_begin := q_time_begin mb_data, time_end := q_time_end mb_data,
             begin_area_id := q_begin_area_id mb_data, end_area_id := q_end_area_id mb_data,
             mb_id := Some (q_mb_id mb_data)\<rparr>
   \<and> fold (lookup_step e) (r # rs) w = fold (lookup_step e) rs (lookup_step e r w)
   \<and> searches (out (lookup_stage e w))
       = searches (out w) @ map (\<lambda>r. artist (df_artists w ! r)) (pending_lookup (df_artists w))"
proof -
  let ?a = "artist (df_artists w ! r)"
  have io: "snd (find_musicbrainz_url (registry e r) ?a) = [Search ?a]"
    by (rule find_musicbrainz_url_io)
  have s: "fst (find_musicbrainz_url (registry e r) ?a) = Inr (Some mb_data) \<longrightarrow>
      lookup_step e r w
        = \<lparr>df_artists = (df_artists w)[r := write_query_dict mb_data (df_artists w ! r)],
           out = out w @ [Search ?a]\<rparr>
      \<and> slept (out (lookup_step e r w)) = slept (out w)" for mb_data
    using io
    by (cases "find_musicbrainz_url (registry e r) ?a")
      (simp add: lookup_step_def Let_def slept_append)
  have n: "fst (find_musicbrainz_url (registry e r) ?a) = Inr None \<longrightarrow>
      lookup_step e r w = w\<lparr>out := out w @ [Search ?a, Sleep 30]\<rparr>
      \<and> slept (out (lookup_step e r w)) = slept (out w) + 30"
    using io
    by (cases "find_musicbrainz_url (registry e r) ?a")
      (simp add: lookup_step_def Let_def slept_append)
  have t: "registry e r ?a = Response 200 (Artists matches) \<and> matches \<noteq> [] \<longrightarrow>
      (\<exists>idx < length matches.
         match_idx ?a matches = Inr idx
         \<and> lookup_step e r w
           = \<lparr>df_artists = (df_artists w)
                  [r := write_query_dict (make_query_dict (matches ! idx)) (df_artists w ! r)],
              out = out w @ [Search ?a]\<rparr>)
      \<and> slept (out (lookup_step e r w)) = slept (out w)"
  proof
    assume h: "registry e r ?a = Response 200 (Artists matches) \<and> matches \<noteq> []"
    then obtain idx where idx: "idx < length matches" "match_idx ?a matches = Inr idx"
      using match_idx_total by blast
    have fm: "fst (find_musicbrainz_url (registry e r) ?a)
        = Inr (Some (make_query_dict (matches ! idx)))"
      using h idx(2) by (simp add: find_musicbrainz_url_def)
    from s [of "make_query_dict (matches ! idx)"] fm idx
    show "(\<exists>idx < length matches.
         match_idx ?a matches = Inr idx
         \<and> lookup_step e r w
           = \<lparr>df_artists = (df_artists w)
                  [r := write_query_dict (make_query_dict (matches ! idx)) (df_artists w ! r)],
              out = out w @ [Search ?a]\<rparr>)
      \<and> slept (out (lookup_step e r w)) = slept (out w)"
      by blast
  qed
  have i: "(fst (find_musicbrainz_url (registry e r) ?a) = Inr None)
       = (\<exists>status_code res_body.
            registry e r ?a = Response status_code res_body \<and> status_code \<noteq> 200)"
  proof (cases "registry e r ?a")
    case NoResponse
    then show ?thesis by (simp add: find_musicbrainz_url_def)
  next
    case (Response status_code res_body)
    show ?thesis
    proof (cases "status_code = 200")
      case False
      then show ?thesis using Response by (simp add: find_musicbrainz_url_def)
    next
      case True
      show ?thesis
      proof (cases res_body)
        case Malformed
        then show ?thesis using Response True by (simp add: find_musicbrainz_url_def)
      next
        case (Artists ms)
        show ?thesis
        proof (cases "ms = []")
          case True
          then show ?thesis
            using Response Artists \<open>status_code = 200\<close>
            by (simp add: find_musicbrainz_url_def match_idx_def)
        next
          case False
          then obtain idx where "match_idx ?a ms = Inr idx" using match_idx_total by blast
          then show ?thesis
            using Response Artists \<open>status_code = 200\<close>
            by (simp add: find_musicbrainz_url_def)
        qed
      qed
    qed
  qed
  have z: "registry e r ?a = Response 200 (Artists []) \<longrightarrow>
      lookup_step e r w = w\<lparr>out := out w @ [Search ?a, Print ?a, Sleep 10]\<rparr>
      \<and> slept (out (lookup_step e r w)) = slept (out w) + 10"
    by (simp add: lookup_step_def find_musicbrainz_url_def match_idx_def Let_def slept_append)
  have f: "fold (lookup_step e) (r # rs) w = fold (lookup_step e) rs (lookup_step e r w)"
    by simp
  have d: "write_query_dict mb_data row
       = row\<lparr>type := q_type mb_data, gender := q_gender mb_data, country := q_country mb_data,
             time_begin := q_time_begin mb_data, time_end := q_time_end mb_data,
             begin_area_id := q_begin_area_id mb_data, end_area_id := q_end_area_id mb_data,
             mb_id := Some (q_mb_id mb_data)\<rparr>"
    by (simp add: write_query_dict_def)
  from t s [of mb_data] i n z d f searches_lookup_stage [of e w] show ?thesis
    by blast
qed

theorem success_and_empty_outcomes_witness:
  "lookup_step beatles_env 0 \<lparr>df_artists = two_rows, out = []\<rparr>
     = \<lparr>df_artists = two_rows[0 := write_query_dict (make_query_dict (cand 100 ''The Beatles''))
                                      (blank ''beatles'')],
        out = [Search ''beatles'']\<rparr>
   \<and> slept (out (lookup_step beatles_env 0 \<lparr>df_artists = two_rows, out = []\<rparr>)) = 0
   \<and> fst (find_musicbrainz_url (registry down_env 1) ''abba'') = Inr None
   \<and> lookup_step down_env 1 \<lparr>df_artists = two_rows, out = []\<rparr>
       = \<lparr>df_artists = two_rows, out = [Search ''abba'', Sleep 30]\<rparr>
   \<and> slept (out (lookup_step down_env 1 \<lparr>df_artists = two_rows, out = []\<rparr>)) = 30
   \<and> lookup_step no_match_env 0 \<lparr>df_artists = two_rows, out = []\<rparr>
       = \<lparr>df_artists = two_rows, out = [Search ''beatles'', Print ''beatles'', Sleep 10]\<rparr>"
proof -
  let ?w = "\<lparr>df_artists = two_rows, out = []\<rparr>"
  let ?d = "make_query_dict (cand 100 ''The Beatles'')"
  have r0: "registry beatles_env 0 (artist (df_artists ?w ! 0))
        = Response 200 (Artists [cand 100 ''The Beatles''])
      \<and> [cand 100 ''The Beatles''] \<noteq> []"
    by (simp add: beatles_env_def)
  from success_and_empty_outcomes [of beatles_env 0 ?w "[cand 100 ''The Beatles'']"] r0
  have "(\<exists>idx < length [cand 100 ''The Beatles''].
         match_idx (artist (df_artists ?w ! 0)) [cand 100 ''The Beatles''] = Inr idx
         \<and> lookup_step beatles_env 0 ?w
           = \<lparr>df_artists = (df_artists ?w)
                  [0 := write_query_dict (make_query_dict ([cand 100 ''The Beatles''] ! idx))
                          (df_artists ?w ! 0)],
              out = out ?w @ [Search (artist (df_artists ?w ! 0))]\<rparr>)"
    and p': "slept (out (lookup_step beatles_env 0 ?w)) = slept (out ?w)"
    by blast+
  then have p: "lookup_step beatles_env 0 ?w
      = \<lparr>df_artists = two_rows[0 := write_query_dict ?d (blank ''beatles'')],
         out = [Search ''beatles'']\<rparr>"
    by (auto simp add: two_rows_def resolved_def blank_def)
  have r1: "registry down_env 1 (artist (df_artists ?w ! 1)) = Response 503 Malformed
      \<and> (503::nat) \<noteq> 200"
    by (simp add: down_env_def)
  from success_and_empty_outcomes [of down_env 1 ?w] r1
  have n: "fst (find_musicbrainz_url (registry down_env 1) (artist (df_artists ?w ! 1))) = Inr None"
    by blast
  from success_and_empty_outcomes [of down_env 1 ?w] n
  have q: "lookup_step down_env 1 ?w
        = ?w\<lparr>out := out ?w @ [Search (artist (df_artists ?w ! 1)), Sleep 30]\<rparr>"
    and q': "slept (out (lookup_step down_env 1 ?w)) = slept (out ?w) + 30"
    by blast+
  have r2: "registry no_match_env 0 (artist (df_artists ?w ! 0)) = Response 200 (Artists [])"
    by (simp add: no_match_env_def)
  from success_and_empty_outcomes [of no_match_env 0 ?w] r2
  have z: "lookup_step no_match_env 0 ?w
        = ?w\<lparr>out := out ?w @ [Search (artist (df_artists ?w ! 0)),
                                Print (artist (df_artists ?w ! 0)), Sleep 10]\<rparr>"
    by blast
  have a1: "artist (df_artists ?w ! 1) = ''abba''" "artist (df_artists ?w ! 0) = ''beatles''"
    by (simp_all add: two_rows_def resolved_def blank_def)
  from p p' n q q' z show ?thesis
    unfolding a1 by simp
qed

text \<open>
  Claim C8 as the specification states it has the loop sleep the delay of the empty outcome,
  and no more, when the registry completes and finds no usable match. For a 200 response
  with an empty candidate list \<open>matches[0]\<close> raises: the artist is printed and the loop
  sleeps the 10 seconds of a failure, not the 30 of line 228.
\<close>

theorem no_match_counterexample:
  "fst (find_musicbrainz_url (registry no_match_env 0) ''beatles'') = Inl IndexError
   \<and> out (lookup_step no_match_env 0 \<lparr>df_artists = two_rows, out = []\<rparr>)
       = [Search ''beatles'', Print ''beatles'', Sleep 10]
   \<and> slept (out (lookup_step no_match_env 0 \<lparr>df_artists = two_rows, out = []\<rparr>)) = 10"
  by (simp add: find_musicbrainz_url_def lookup_step_def match_idx_def no_match_env_def
      two_rows_def resolved_def blank_def Let_def)

text \<open>
  Claim C4, as amended to the two loops of \<open>scrape_artist_data\<close>. When the fetch for a
  pending row raises, the step leaves the frame as it was, prints the row's artist and
  sleeps 10 seconds, less than the sleep of the empty outcome, and the loop goes on with the
  remaining items from the unchanged frame; a row whose registry lookup raised is the same
  after the whole run as before it, so the next run finds it pending.
\<close>

theorem item_failure_contained:
  "(fst (find_musicbrainz_url (registry e r) (artist (df_artists w ! r))) = Inl exn \<longrightarrow>
      lookup_step e r w
        = w\<lparr>out := out w @ [Search (artist (df_artists w ! r)),
                             Print (artist (df_artists w ! r)), Sleep 10]\<rparr>
      \<and> fold (lookup_step e) (r # rs) w
        = fold (lookup_step e) rs
            (w\<lparr>out := out w @ [Search (artist (df_artists w ! r)),
                                Print (artist (df_artists w ! r)), Sleep 10]\<rparr>))
   \<and> (fst (get_artist_details (relationships e r) (url_text (mb_id (df_artists w ! r)))) = Inl exn \<longrightarrow>
      details_step e r w
        = w\<lparr>out := out w @ [Details (url_text (mb_id (df_artists w ! r))),
                             Print (artist (df_artists w ! r)), Sleep 10]\<rparr>
      \<and> fold (details_step e) (r # rs) w
        = fold (details_step e) rs
            (w\<lparr>out := out w @ [Details (url_text (mb_id (df_artists w ! r))),
                                Print (artist (df_artists w ! r)), Sleep 10]\<rparr>))
   \<and> (r < length snapshot \<and> mb_id (snapshot ! r) = None
        \<and> fst (find_musicbrainz_url (registry e r) (artist (snapshot ! r))) = Inl exn \<longrightarrow>
      df_artists (artist_main e snapshot) ! r = snapshot ! r)
   \<and> (fst (find_musicbrainz_url (registry e r) (artist row)) = Inl exn
        \<and> fst (find_musicbrainz_url (registry e r') (artist row')) = Inr None \<longrightarrow>
      slept (lookup_events e r row) < slept (lookup_events e r' row'))"
proof -
  have io: "snd (find_musicbrainz_url (registry e r) (artist (df_artists w ! r)))
      = [Search (artist (df_artists w ! r))]"
    by (rule find_musicbrainz_url_io)
  have a: "fst (find_musicbrainz_url (registry e r) (artist (df_artists w ! r))) = Inl exn \<longrightarrow>
      lookup_step e r w
        = w\<lparr>out := out w @ [Search (artist (df_artists w ! r)),
                             Print (artist (df_artists w ! r)), Sleep 10]\<rparr>"
    using io
    by (cases "find_musicbrainz_url (registry e r) (artist (df_artists w ! r))")
      (simp add: lookup_step_def Let_def)
  have io': "snd (get_artist_details (relationships e r) (url_text (mb_id (df_artists w ! r))))
      = [Details (url_text (mb_id (df_artists w ! r)))]"
    by (rule get_artist_details_io)
  have b: "fst (get_artist_details (relationships e r) (url_text (mb_id (df_artists w ! r)))) = Inl exn \<longrightarrow>
      details_step e r w
        = w\<lparr>out := out w @ [Details (url_text (mb_id (df_artists w ! r))),
                             Print (artist (df_artists w ! r)), Sleep 10]\<rparr>"
    using io'
    by (cases "get_artist_details (relationships e r) (url_text (mb_id (df_artists w ! r)))")
      (simp add: details_step_def Let_def)
  have c: "r < length snapshot \<and> mb_id (snapshot ! r) = None
        \<and> fst (find_musicbrainz_url (registry e r) (artist (snapshot ! r))) = Inl exn \<longrightarrow>
      df_artists (artist_main e snapshot) ! r = snapshot ! r"
  proof
    assume h: "r < length snapshot \<and> mb_id (snapshot ! r) = None
        \<and> fst (find_musicbrainz_url (registry e r) (artist (snapshot ! r))) = Inl exn"
    let ?w0 = "\<lparr>df_artists = snapshot, out = []\<rparr>"
    have l: "lookup_row e r (snapshot ! r) = snapshot ! r"
      using h by (simp add: lookup_row_def)
    have s1: "df_artists (lookup_stage e ?w0) ! r = snapshot ! r"
      using h l lookup_stage_nth [of r ?w0 e] by simp
    have len: "r < length (df_artists (lookup_stage e ?w0))"
      using h by (simp add: lookup_stage_length)
    show "df_artists (artist_main e snapshot) ! r = snapshot ! r"
      unfolding artist_main_def
      using details_stage_nth [OF len, of e] s1 h by simp
  qed
  have d: "fst (find_musicbrainz_url (registry e r) (artist row)) = Inl exn
        \<and> fst (find_musicbrainz_url (registry e r') (artist row')) = Inr None \<longrightarrow>
      slept (lookup_events e r row) < slept (lookup_events e r' row')"
    by (simp add: lookup_events_def)
  from a b c d show ?thesis by simp
qed

theorem item_failure_contained_witness:
  "lookup_step down_env 0 \<lparr>df_artists = two_rows, out = []\<rparr>
     = \<lparr>df_artists = two_rows, out = [Search ''beatles'', Print ''beatles'', Sleep 10]\<rparr>
   \<and> details_step down_env 1 \<lparr>df_artists = two_rows, out = []\<rparr>
     = \<lparr>df_artists = two_rows, out = [Details ''m-abba'', Print ''abba'', Sleep 10]\<rparr>
   \<and> df_artists (artist_main down_env two_rows) ! 0 = blank ''beatles''
   \<and> slept (lookup_events down_env 0 (blank ''beatles''))
       < slept (lookup_events down_env 1 (blank ''abba''))"
proof -
  let ?w = "\<lparr>df_artists = two_rows, out = []\<rparr>"
  have f0: "fst (find_musicbrainz_url (registry down_env 0) (artist (df_artists ?w ! 0)))
      = Inl RequestException"
    by (simp add: find_musicbrainz_url_def down_env_def)
  have f1: "fst (get_artist_details (relationships down_env 1)
        (url_text (mb_id (df_artists ?w ! 1)))) = Inl RequestException"
    by (simp add: get_artist_details_def down_env_def)
  have f2: "0 < length two_rows \<and> mb_id (two_rows ! 0) = None
      \<and> fst (find_musicbrainz_url (registry down_env 0) (artist (two_rows ! 0)))
          = Inl RequestException"
    by (simp add: find_musicbrainz_url_def down_env_def two_rows_def blank_def)
  have f3: "fst (find_musicbrainz_url (registry down_env 0) (artist (blank ''beatles'')))
        = Inl RequestException
      \<and> fst (find_musicbrainz_url (registry down_env 1) (artist (blank ''abba''))) = Inr None"
    by (simp add: find_musicbrainz_url_def down_env_def)
  from item_failure_contained [of down_env 0 ?w RequestException] f0
  have a: "lookup_step down_env 0 ?w
     = \<lparr>df_artists = two_rows, out = [Search ''beatles'', Print ''beatles'', Sleep 10]\<rparr>"
    by (simp add: two_rows_def resolved_def blank_def)
  from item_failure_contained [of down_env 1 ?w RequestException] f1
  have b: "details_step down_env 1 ?w
     = \<lparr>df_artists = two_rows, out = [Details ''m-abba'', Print ''abba'', Sleep 10]\<rparr>"
    by (simp add: two_rows_def resolved_def blank_def url_text_def)
  from item_failure_contained [of down_env 0 _ RequestException _ two_rows] f2
  have c: "df_artists (artist_main down_env two_rows) ! 0 = two_rows ! 0"
    by blast
  have c': "two_rows ! 0 = blank ''beatles''"
    by (simp add: two_rows_def)
  from item_failure_contained
    [of down_env 0 _ RequestException _ _ "blank ''beatles''" 1 "blank ''abba''"] f3
  have d: "slept (lookup_events down_env 0 (blank ''beatles''))
       < slept (lookup_events down_env 1 (blank ''abba''))"
    by blast
  from a b c c' d show ?thesis by simp
qed

subsection \<open>Monotonic completion\<close>

text \<open>
  Claim C3, as amended. For every run over every snapshot: the registry is asked exactly
  once for each row whose \<open>mb_id\<close> is null and never for a row whose \<open>mb_id\<close> is set; the
  rows scraped are rows whose \<open>genius_url\<close> is null, so a row whose \<open>genius_url\<close> is set is
  never scraped again; and a \<open>mb_id\<close> or \<open>genius_url\<close> that is set is the same after the
  run. A row whose scrape completed and found no Genius link is still pending for the
  detail scrape after the run.
\<close>

theorem monotonic_completion:
  "searches (out (artist_main e snapshot))
     = map artist (filter (\<lambda>row. mb_id row = None) snapshot)
   \<and> scrapes (out (artist_main e snapshot))
     = map (\<lambda>row. url_text (mb_id row))
         (filter (\<lambda>row. genius_url row = None \<and> mb_id row \<noteq> None) (after_lookup e snapshot))
   \<and> map genius_url (after_lookup e snapshot) = map genius_url snapshot
   \<and> length (df_artists (artist_main e snapshot)) = length snapshot
   \<and> (\<forall>r < length snapshot.
        (mb_id (snapshot ! r) \<noteq> None \<longrightarrow>
           mb_id (df_artists (artist_main e snapshot) ! r) = mb_id (snapshot ! r))
        \<and> (genius_url (snapshot ! r) \<noteq> None \<longrightarrow>
           genius_url (df_artists (artist_main e snapshot) ! r) = genius_url (snapshot ! r)))
   \<and> (\<forall>r \<in> set (pending_details (after_lookup e snapshot)).
        fst (get_artist_details (relationships e r)
               (url_text (mb_id (after_lookup e snapshot ! r)))) = Inr info_dict
        \<and> d_genius_url info_dict = None \<longrightarrow>
        r \<in> set (pending_details (df_artists (artist_main e snapshot))))"
proof -
  let ?w0 = "\<lparr>df_artists = snapshot, out = []\<rparr>"
  have a: "searches (out (artist_main e snapshot))
     = map artist (filter (\<lambda>row. mb_id row = None) snapshot)"
    unfolding searches_artist_main pending_lookup_def by (rule filter_index)
  have b: "scrapes (out (artist_main e snapshot))
     = map (\<lambda>row. url_text (mb_id row))
         (filter (\<lambda>row. genius_url row = None \<and> mb_id row \<noteq> None) (after_lookup e snapshot))"
    unfolding scrapes_artist_main pending_details_def after_lookup_def by (rule filter_index)
  have len: "length (after_lookup e snapshot) = length snapshot"
    by (simp add: after_lookup_def lookup_stage_length)
  have c: "map genius_url (after_lookup e snapshot) = map genius_url snapshot"
  proof (rule nth_equalityI)
    show "length (map genius_url (after_lookup e snapshot)) = length (map genius_url snapshot)"
      using len by simp
  next
    fix i assume "i < length (map genius_url (after_lookup e snapshot))"
    then have i: "i < length snapshot" using len by simp
    then show "map genius_url (after_lookup e snapshot) ! i = map genius_url snapshot ! i"
      using len lookup_stage_genius_url [of i ?w0 e] by (simp add: after_lookup_def)
  qed
  have d: "\<forall>r \<in> set (pending_details (after_lookup e snapshot)).
        fst (get_artist_details (relationships e r)
               (url_text (mb_id (after_lookup e snapshot ! r)))) = Inr info_dict
        \<and> d_genius_url info_dict = None \<longrightarrow>
        r \<in> set (pending_details (df_artists (artist_main e snapshot)))"
  proof (intro ballI impI)
    fix r
    assume p: "r \<in> set (pending_details (after_lookup e snapshot))"
      and f: "fst (get_artist_details (relationships e r)
               (url_text (mb_id (after_lookup e snapshot ! r)))) = Inr info_dict
        \<and> d_genius_url info_dict = None"
    let ?w1 = "lookup_stage e ?w0"
    have r: "r < length (df_artists ?w1)" "genius_url (df_artists ?w1 ! r) = None"
      "mb_id (df_artists ?w1 ! r) \<noteq> None"
      using p by (simp_all add: pending_details_def after_lookup_def)
    have "df_artists (details_stage e ?w1) ! r = details_row e r (df_artists ?w1 ! r)"
      using details_stage_nth [OF r(1), of e] r(2,3) by simp
    also have "\<dots> = write_data_dict info_dict (df_artists ?w1 ! r)"
      using f by (simp add: details_row_def after_lookup_def)
    finally have row: "df_artists (artist_main e snapshot) ! r
        = write_data_dict info_dict (df_artists ?w1 ! r)"
      by (simp add: artist_main_def)
    have "r < length (df_artists (artist_main e snapshot))"
      using r(1) by (simp add: artist_main_def details_stage_length)
    moreover have "genius_url (df_artists (artist_main e snapshot) ! r) = None"
      using row f by (simp add: write_data_dict_def)
    moreover have "mb_id (df_artists (artist_main e snapshot) ! r) \<noteq> None"
      using row r(3) by (simp add: write_data_dict_def)
    ultimately show "r \<in> set (pending_details (df_artists (artist_main e snapshot)))"
      by (simp add: pending_details_def)
  qed
  from a b c d artist_main_length artist_main_mb_id artist_main_genius_url
  show ?thesis by blast
qed

theorem monotonic_completion_witness:
  "searches (out (artist_main beatles_env two_rows)) = [''beatles'']
   \<and> length (df_artists (artist_main beatles_env two_rows)) = 2
   \<and> mb_id (df_artists (artist_main beatles_env two_rows) ! 1) = Some ''m-abba''
   \<and> genius_url (df_artists (artist_main beatles_env two_rows) ! 1)
       = Some ''https://genius.com/artists/Abba''
   \<and> 0 \<in> set (pending_details (df_artists (artist_main beatles_env unlinked)))"
proof -
  let ?info = "\<lparr>d_wikidata_id = [], d_discogs_id = [], d_genius_url = None\<rparr>"
  have u: "after_lookup beatles_env unlinked = unlinked"
    by (simp add: after_lookup_def lookup_stage_def pending_lookup_def unlinked_def
        resolved_def blank_def)
  have p: "0 \<in> set (pending_details (after_lookup beatles_env unlinked))"
    unfolding u by (simp add: pending_details_def unlinked_def resolved_def blank_def)
  have g: "fst (get_artist_details (relationships beatles_env 0)
               (url_text (mb_id (after_lookup beatles_env unlinked ! 0)))) = Inr ?info
        \<and> d_genius_url ?info = None"
    unfolding u
    by (simp add: get_artist_details_def parse_details_def beatles_env_def no_links_def)
  from monotonic_completion [of beatles_env unlinked ?info] p g
  have e: "0 \<in> set (pending_details (df_artists (artist_main beatles_env unlinked)))"
    by blast
  note t = monotonic_completion [of beatles_env two_rows]
  have r: "1 < length two_rows" "mb_id (two_rows ! 1) = Some ''m-abba''"
    "genius_url (two_rows ! 1) = Some ''https://genius.com/artists/Abba''"
    by (simp_all add: two_rows_def resolved_def blank_def)
  from t have "searches (out (artist_main beatles_env two_rows))
     = map artist (filter (\<lambda>row. mb_id row = None) two_rows)"
    by blast
  then have a: "searches (out (artist_main beatles_env two_rows)) = [''beatles'']"
    by (simp add: two_rows_def resolved_def blank_def)
  from t have b: "length (df_artists (artist_main beatles_env two_rows)) = 2"
    by (simp add: two_rows_def)
  from t r(1) have "(mb_id (two_rows ! 1) \<noteq> None \<longrightarrow>
           mb_id (df_artists (artist_main beatles_env two_rows) ! 1) = mb_id (two_rows ! 1))
        \<and> (genius_url (two_rows ! 1) \<noteq> None \<longrightarrow>
           genius_url (df_artists (artist_main beatles_env two_rows) ! 1)
             = genius_url (two_rows ! 1))"
    by blast
  with r have c: "mb_id (df_artists (artist_main beatles_env two_rows) ! 1) = Some ''m-abba''"
    and d: "genius_url (df_artists (artist_main beatles_env two_rows) ! 1)
       = Some ''https://genius.com/artists/Abba''"
    by simp_all
  from a b c d e show ?thesis by simp
qed

text \<open>
  Claim C3 as the specification states it also has a row that a completed scrape found
  without a Genius link never scraped again. Such a row keeps a null \<open>genius_url\<close>, and
  the next run scrapes it again.
\<close>

lemma unlinked_run:
  "artist_main beatles_env unlinked
     = \<lparr>df_artists = [(resolved ''abba'' ''m-abba'' None)
                        \<lparr>wikidata_id := Some [], discogs_id := Some []\<rparr>],
        out = [Details ''m-abba'']\<rparr>"
  by (simp add: artist_main_def lookup_stage_def details_stage_def pending_lookup_def
      pending_details_def details_step_def get_artist_details_def parse_details_def
      write_data_dict_def beatles_env_def no_links_def unlinked_def resolved_def blank_def
      url_text_def Let_def)

theorem rescrape_counterexample:
  "genius_url (df_artists (artist_main beatles_env unlinked) ! 0) = None
   \<and> wikidata_id (df_artists (artist_main beatles_env unlinked) ! 0) = Some []
   \<and> scrapes (out (artist_main beatles_env unlinked)) = [''m-abba'']
   \<and> scrapes (out (artist_main beatles_env (df_artists (artist_main beatles_env unlinked))))
       = [''m-abba'']"
proof -
  have second: "artist_main beatles_env
      [(resolved ''abba'' ''m-abba'' None)\<lparr>wikidata_id := Some [], discogs_id := Some []\<rparr>]
     = \<lparr>df_artists = [(resolved ''abba'' ''m-abba'' None)
                        \<lparr>wikidata_id := Some [], discogs_id := Some []\<rparr>],
        out = [Details ''m-abba'']\<rparr>"
    by (simp add: artist_main_def lookup_stage_def details_stage_def pending_lookup_def
      pending_details_def details_step_def get_artist_details_def parse_details_def
      write_data_dict_def beatles_env_def no_links_def resolved_def blank_def
      url_text_def Let_def)
  show ?thesis
    by (simp add: unlinked_run second) (simp add: resolved_def blank_def)
qed

section \<open>Genius song search: \<open>scrape_genius.main\<close>, lines 129 to 164\<close>

text \<open>
  A row of the songs snapshot (the columns \<open>artist\<close> and \<open>genius_url\<close> are \<open>song_artist\<close> and
  \<open>song_genius_url\<close> here), a hit of the search API, and what a request gives: it raises,
  or \<open>res.json()\<close> or \<open>res_dict["response"]["hits"]\<close> raises, or there is a list of hits.
  \<open>_normalize\<close> rests on \<open>unicodedata\<close> and is a parameter, \<open>normalise\<close>.
\<close>

record song_row =
  song_artist :: string
  song :: string
  genius_artist :: "string option"
  genius_song :: "string option"
  song_genius_url :: "string option"
  lyrics :: "string option"

record hit =
  hit_type :: string
  artist_names :: string
  primary_artist_names :: string
  title :: string
  url :: string

datatype api_response = NoApiResponse | BadJson | Hits "hit list"

fun first_exact ::
  "(string \<Rightarrow> string) \<Rightarrow> (hit \<Rightarrow> string) \<Rightarrow> string \<Rightarrow> string \<Rightarrow> nat \<Rightarrow> hit list \<Rightarrow> nat option" where
  "first_exact normalise field target_title target_artist i [] = None"
| "first_exact normalise field target_title target_artist i (h # hits) =
     (if hit_type h \<noteq> ''song''
      then first_exact normalise field target_title target_artist (Suc i) hits
      else if normalise (field h) = target_artist \<and> normalise (title h) = target_title
      then Some i
      else first_exact normalise field target_title target_artist (Suc i) hits)"

definition find_song_index ::
  "(string \<Rightarrow> string) \<Rightarrow> hit list \<Rightarrow> string \<Rightarrow> string \<Rightarrow> int" where
  "find_song_index normalise hits song_name artist_name =
     (let target_title = normalise song_name;
          target_artist = normalise artist_name
      in case first_exact normalise artist_names target_title target_artist 0 hits of
           Some i \<Rightarrow> int i
         | None \<Rightarrow>
             (case first_exact normalise primary_artist_names target_title target_artist 0 hits of
                Some i \<Rightarrow> int i
              | None \<Rightarrow> - 1))"

definition populate :: "hit \<Rightarrow> song_row \<Rightarrow> song_row" where
  "populate h row =
     row\<lparr>genius_artist := Some (artist_names h), genius_song := Some (title h),
         song_genius_url := Some (url h)\<rparr>"

definition hits_of :: "api_response \<Rightarrow> error + hit list" where
  "hits_of res =
     (case res of
        NoApiResponse \<Rightarrow> Inl RequestException
      | BadJson \<Rightarrow> Inl JSONDecodeError
      | Hits hits \<Rightarrow> Inr hits)"

text \<open>
  The loop body, lines 132 to 164, and the loop. Nothing catches an exception: the first
  request that raises ends the loop, and the run with it. The loop also returns the rows
  it visited.
\<close>

definition search_step ::
  "(string \<Rightarrow> string) \<Rightarrow> (nat \<Rightarrow> string \<Rightarrow> api_response) \<Rightarrow> nat \<Rightarrow> song_row list
     \<Rightarrow> error + song_row list" where
  "search_step normalise requests_get i df_songs =
     (let song_name = song (df_songs ! i);
          artist_name = song_artist (df_songs ! i)
      in case hits_of (requests_get i song_name) of
           Inl exn \<Rightarrow> Inl exn
         | Inr hits \<Rightarrow>
             (let idx_hit = find_song_index normalise hits song_name artist_name
              in if idx_hit \<noteq> - 1
                 then Inr (df_songs[i := populate (hits ! nat idx_hit) (df_songs ! i)])
                 else (case hits_of (requests_get i (song_name @ '' by '' @ artist_name)) of
                         Inl exn \<Rightarrow> Inl exn
                       | Inr hits2 \<Rightarrow>
                           (let idx_hit2 = find_song_index normalise hits2 song_name artist_name
                            in if idx_hit2 \<noteq> - 1
                               then Inr (df_songs[i := populate (hits2 ! nat idx_hit2)
                                                          (df_songs ! i)])
                               else Inr df_songs))))"

fun search_loop ::
  "(string \<Rightarrow> string) \<Rightarrow> (nat \<Rightarrow> string \<Rightarrow> api_response) \<Rightarrow> nat list \<Rightarrow> song_row list
     \<Rightarrow> nat list \<times> (error + song_row list)" where
  "search_loop normalise requests_get [] df_songs = ([], Inr df_songs)"
| "search_loop normalise requests_get (i # rest) df_songs =
     (case search_step normalise requests_get i df_songs of
        Inl exn \<Rightarrow> ([i], Inl exn)
      | Inr df_songs' \<Rightarrow>
          (case search_loop normalise requests_get rest df_songs' of
             (visited, result) \<Rightarrow> (i # visited, result)))"

definition new_song :: "string \<Rightarrow> string \<Rightarrow> song_row" where
  "new_song a s = \<lparr>song_artist = a, song = s, genius_artist = None, genius_song = None,
     song_genius_url = None, lyrics = None\<rparr>"

definition two_songs :: "song_row list" where
  "two_songs = [new_song ''abba'' ''waterloo'', new_song ''queen'' ''bohemian rhapsody'']"

definition offline :: "nat \<Rightarrow> string \<Rightarrow> api_response" where
  "offline i query = (if i = 0 then NoApiResponse else Hits [])"



text \<open>
  Claim C4 as the specification states it covers the Genius loop too. There the failure of
  the first item ends the loop: the second item is not visited and no frame is returned.
\<close>

theorem search_loop_abort_counterexample:
  "search_loop lower offline [0, 1] two_songs = ([0], Inl RequestException)"
  by (simp add: search_step_def hits_of_def offline_def Let_def)

subsection \<open>The sample of line 130\<close>

text \<open>
  Line 130: \<open>df_songs.sample(400)\<close>. pandas passes the number of rows and the size to
  \<open>choice\<close> of numpy's generator, without replacement: \<open>choice\<close> raises \<open>ValueError\<close> when the
  size is larger than the number of rows, and returns the first \<open>size\<close> entries of
  \<open>permutation\<close> otherwise. \<open>permutation n\<close> is \<open>arange(n)\<close> shuffled: for \<open>i\<close> from \<open>n - 1\<close>
  down to 1, entry \<open>i\<close> changes place with entry \<open>j = random_interval(i)\<close>, a number from 0
  to \<open>i\<close>. The generator is the parameter \<open>rng\<close>: \<open>rng i\<close> is what it gives at step \<open>i\<close>,
  brought into the range 0 to \<open>i\<close>. The sampled frame keeps the order of the sample, the
  query keeps the rows whose \<open>genius_url\<close> is null, and the labels of the index are the row
  numbers.
\<close>

fun shuffle :: "(nat \<Rightarrow> nat) \<Rightarrow> nat \<Rightarrow> 'a list \<Rightarrow> 'a list" where
  "shuffle rng 0 x = x"
| "shuffle rng (Suc k) x =
     (let i = Suc k; j = rng i mod Suc i in shuffle rng k (x[i := x ! j, j := x ! i]))"

definition permutation :: "(nat \<Rightarrow> nat) \<Rightarrow> nat \<Rightarrow> nat list" where
  "permutation rng n = shuffle rng (n - 1) [0..<n]"

definition choice :: "(nat \<Rightarrow> nat) \<Rightarrow> nat \<Rightarrow> nat \<Rightarrow> error + nat list" where
  "choice rng a sample_size =
     (if a < sample_size then Inl ValueError else Inr (take sample_size (permutation rng a)))"









subsection \<open>A shuffle is a permutation, and the draws determine it\<close>


lemma shuffle_length: "length (shuffle rng k x) = length x"
  by (induction k arbitrary: x) (simp_all add: Let_def)






















subsection \<open>Bounded random coverage\<close>




end
